theory Spec2Isabelle
  imports Complex_Main
begin

section \<open>JavaScript numbers\<close>

text \<open>
  A JavaScript number is a finite value, one of the two infinities, or NaN. Finite
  arithmetic is taken exact (rounding is not modelled) and zero has no sign; every
  comparison with NaN is false, as in the language.
\<close>

datatype jsnum = Num real | PosInf | NegInf | NaN

fun js_strict_eq :: "jsnum \<Rightarrow> jsnum \<Rightarrow> bool" where
  "js_strict_eq NaN _ = False"
| "js_strict_eq _ NaN = False"
| "js_strict_eq a b = (a = b)"

fun js_lt :: "jsnum \<Rightarrow> jsnum \<Rightarrow> bool" where
  "js_lt NaN _ = False"
| "js_lt _ NaN = False"
| "js_lt (Num a) (Num b) = (a < b)"
| "js_lt (Num a) PosInf = True"
| "js_lt NegInf (Num b) = True"
| "js_lt NegInf PosInf = True"
| "js_lt _ _ = False"

definition js_gt :: "jsnum \<Rightarrow> jsnum \<Rightarrow> bool" where
  "js_gt a b = js_lt b a"

definition js_le :: "jsnum \<Rightarrow> jsnum \<Rightarrow> bool" where
  "js_le a b = (js_lt a b \<or> js_strict_eq a b)"

fun js_neg :: "jsnum \<Rightarrow> jsnum" where
  "js_neg (Num a) = Num (- a)"
| "js_neg PosInf = NegInf"
| "js_neg NegInf = PosInf"
| "js_neg NaN = NaN"

fun js_add :: "jsnum \<Rightarrow> jsnum \<Rightarrow> jsnum" where
  "js_add NaN _ = NaN"
| "js_add _ NaN = NaN"
| "js_add (Num a) (Num b) = Num (a + b)"
| "js_add PosInf NegInf = NaN"
| "js_add NegInf PosInf = NaN"
| "js_add PosInf _ = PosInf"
| "js_add NegInf _ = NegInf"
| "js_add (Num a) b = b"

definition js_sub :: "jsnum \<Rightarrow> jsnum \<Rightarrow> jsnum" where
  "js_sub a b = js_add a (js_neg b)"

fun js_div :: "jsnum \<Rightarrow> jsnum \<Rightarrow> jsnum" where
  "js_div NaN _ = NaN"
| "js_div _ NaN = NaN"
| "js_div (Num a) (Num b) =
     (if b = 0 then (if a = 0 then NaN else if 0 < a then PosInf else NegInf)
      else Num (a / b))"
| "js_div (Num a) _ = Num 0"
| "js_div PosInf (Num b) = (if 0 \<le> b then PosInf else NegInf)"
| "js_div NegInf (Num b) = (if 0 \<le> b then NegInf else PosInf)"
| "js_div _ _ = NaN"


text \<open>Truthiness of a number: \<open>0\<close> and NaN are falsy.\<close>

fun js_truthy :: "jsnum \<Rightarrow> bool" where
  "js_truthy (Num a) = (a \<noteq> 0)"
| "js_truthy NaN = False"
| "js_truthy _ = True"

text \<open>\<open>Number.MAX_VALUE\<close>, the largest finite double.\<close>

definition MAX_VALUE :: jsnum where
  "MAX_VALUE = Num ((2 ^ 53 - 1) * 2 ^ 971)"

datatype log_entry = LogDebug string | LogInfo string | LogWarn string | LogError string

section \<open>Media source: \<open>setDurationToMediaSource\<close>\<close>

datatype ready_state = Closed | Open | Ended

text \<open>A source buffer of the platform is an object; it is named by a number.\<close>

type_synonym source_buffer = nat

record media_source =
  ms_duration :: jsnum
  ms_readyState :: ready_state
  ms_sourceBuffers :: "source_buffer list"

text \<open>
  \<open>setDurationToMediaSource(mediaSource, duration)\<close>: the media source after the call
  and what was logged.
\<close>

definition setDurationToMediaSource ::
    "media_source \<Rightarrow> jsnum \<Rightarrow> media_source \<times> log_entry list" where
  "setDurationToMediaSource mediaSource duration =
     (let newDuration = (if js_strict_eq duration PosInf then MAX_VALUE else duration)
      in if \<not> js_strict_eq (ms_duration mediaSource) newDuration
         then (mediaSource\<lparr>ms_duration := newDuration\<rparr>, [LogInfo ''set duration''])
         else (mediaSource, []))"

section \<open>Errors\<close>

text \<open>
  The player's own errors (\<open>CustomError\<close>: a class, a code, the error that caused it
  and the \<open>fatal\<close> flag) and every other JavaScript error. \<open>isKnownError\<close> is the
  type guard \<open>error is CustomError\<close> of the errors module.
\<close>

datatype error_class = MediaError | NetworkError | EncryptedMediaError | OtherError

datatype error =
    JsError string
  | CustomError error_class string "error option" bool

fun isKnownError :: "error \<Rightarrow> bool" where
  "isKnownError (CustomError _ _ _ _) = True"
| "isKnownError (JsError _) = False"

fun fatal :: "error \<Rightarrow> bool" where
  "fatal (CustomError _ _ _ f) = f"
| "fatal (JsError _) = False"

fun error_code :: "error \<Rightarrow> string" where
  "error_code (CustomError _ c _ _) = c"
| "error_code (JsError _) = []"

fun set_fatal :: "error \<Rightarrow> bool \<Rightarrow> error" where
  "set_fatal (CustomError k c r _) f = CustomError k c r f"
| "set_fatal (JsError m) f = JsError m"

section \<open>Stream: retry options and end of play\<close>

text \<open>
  \<open>retryOptions\<close> of \<open>Stream\<close>. \<open>onRetry\<close> logs a warning and pushes the error on
  the error stream: it returns what it logs and what it pushes.
\<close>

record retry_options =
  totalRetry :: nat
  retryDelay :: nat
  resetDelay :: nat
  shouldRetry :: "error \<Rightarrow> bool"
  errorSelector :: "error \<Rightarrow> error"
  onRetry :: "error \<Rightarrow> nat \<Rightarrow> log_entry list \<times> error list"

definition retryOptions :: retry_options where
  "retryOptions =
     \<lparr> totalRetry = 3,
       retryDelay = 250,
       resetDelay = 60 * 1000,
       shouldRetry = (\<lambda>error. if isKnownError error then \<not> fatal error else True),
       errorSelector = (\<lambda>error.
          if \<not> isKnownError error then CustomError OtherError ''NONE'' (Some error) True
          else set_fatal error True),
       onRetry = (\<lambda>error tryCount. ([LogWarn ''stream retry''], [error])) \<rparr>"

text \<open>A tick of \<open>timings$\<close>; the two fields that \<open>endOfPlay\<close> reads.\<close>

record stream_clock_tick =
  currentTime :: jsnum
  duration :: jsnum

text \<open>
  What arrives at \<open>source.takeUntil(notifier)\<close>, in order of arrival: a value of the
  source or a value of the notifier. The result is what is emitted and whether the
  stream has completed.
\<close>

datatype ('a, 'n) arrival = Src 'a | Notif 'n

fun takeUntil :: "('a, 'n) arrival list \<Rightarrow> 'a list \<times> bool" where
  "takeUntil [] = ([], False)"
| "takeUntil (Notif n # xs) = ([], True)"
| "takeUntil (Src a # xs) = (a # fst (takeUntil xs), snd (takeUntil xs))"

text \<open>\<open>notifier.filter(p)\<close> on the arrivals: the notifier's values that fail \<open>p\<close> go.\<close>

fun filter_notifier :: "('n \<Rightarrow> bool) \<Rightarrow> ('a, 'n) arrival list \<Rightarrow> ('a, 'n) arrival list" where
  "filter_notifier p [] = []"
| "filter_notifier p (Notif n # xs) =
     (if p n then Notif n # filter_notifier p xs else filter_notifier p xs)"
| "filter_notifier p (Src a # xs) = Src a # filter_notifier p xs"

text \<open>The predicate of \<open>endOfPlay\<close>; \<open>END_OF_PLAY\<close> is a constant of the configuration.\<close>

definition endOfPlay :: "jsnum \<Rightarrow> stream_clock_tick \<Rightarrow> bool" where
  "endOfPlay END_OF_PLAY tick =
     (js_gt (duration tick) (Num 0)
      \<and> js_lt (js_sub (duration tick) (currentTime tick)) END_OF_PLAY)"

text \<open>
  The stream that \<open>Stream\<close> returns:
  \<open>createAndPlugMediaSource(...).mergeMap(startStream).takeUntil(endOfPlay)\<close>, on the
  arrivals of the events of the inner stream and of the ticks of \<open>timings$\<close>.
\<close>

definition Stream :: "jsnum \<Rightarrow> ('e, stream_clock_tick) arrival list \<Rightarrow> 'e list \<times> bool" where
  "Stream END_OF_PLAY arrivals = takeUntil (filter_notifier (endOfPlay END_OF_PLAY) arrivals)"

text \<open>The events of the source among the arrivals.\<close>

fun sources :: "('a, 'n) arrival list \<Rightarrow> 'a list" where
  "sources [] = []"
| "sources (Src a # xs) = a # sources xs"
| "sources (Notif n # xs) = sources xs"

section \<open>Protection: the EME manager\<close>

text \<open>
  A key-system option of the application; an optional \<open>persistentLicense\<close> that is
  absent counts as \<open>false\<close>. The license storage is an object, the server certificate
  and the initialization data are bytes.
\<close>

record key_system_option =
  ks_type :: string
  persistentLicense :: bool
  licenseStorage :: "nat option"
  serverCertificate :: "nat list option"

text \<open>
  The platform's \<open>MediaKeys\<close> (with whether it has a \<open>setServerCertificate\<close> method)
  and \<open>MediaKeySystemAccess\<close>: the configuration that \<open>getConfiguration()\<close> returns and
  the \<open>MediaKeys\<close> that \<open>createMediaKeys()\<close> resolves to.
\<close>

record media_keys =
  mk_id :: nat
  mk_setServerCertificate :: bool

record 'c key_system_access =
  ka_configuration :: 'c
  ka_mediaKeys :: media_keys

record 'c key_system_package =
  keySystem :: key_system_option
  keySystemAccess :: "'c key_system_access"

record encrypted_event =
  initData :: "nat list option"
  initDataType :: string

text \<open>
  What a handler reads of the mutable state when an event arrives: the \<open>mediaKeys\<close> of
  the video element and \<open>instanceInfos.$mediaKeySystemConfiguration\<close>.
\<close>

record 'c eme_context =
  video_mediaKeys :: "media_keys option"
  mediaKeySystemConfiguration :: "'c option"

text \<open>
  What a handler does, in order: its logs, its write to the stored sessions, and the
  operations of the observable it returns, which belong to modules that are not part of
  this development (\<open>createMediaKeys\<close>, \<open>trySettingServerCertificate\<close>,
  \<open>setMediaKeysObs\<close>, \<open>manageSessionCreation\<close>) or emit the \<open>MediaKeys\<close> of the
  element. A handler returns them with the error it throws, if any.
\<close>

datatype 'c eme_op =
    EmeLog log_entry
  | SetStorage nat
  | CreateMediaKeys "'c key_system_access"
  | TrySettingServerCertificate media_keys "nat list"
  | SetMediaKeysObs media_keys 'c key_system_option
  | EmitMediaKeys media_keys
  | ManageSessionCreation media_keys 'c key_system_option string "nat list"

definition handleSessionStorage :: "key_system_option \<Rightarrow> 'c eme_op list \<times> error option" where
  "handleSessionStorage ks =
     (if persistentLicense ks then
        (case licenseStorage ks of
           Some storage \<Rightarrow> ([SetStorage storage], None)
         | None \<Rightarrow>
             ([], Some (CustomError EncryptedMediaError ''INVALID_KEY_SYSTEM''
                   (Some (JsError ''no license storage found for persistent license.'')) True)))
      else ([], None))"

definition setCertificate :: "nat list option \<Rightarrow> media_keys \<Rightarrow> 'c eme_op list" where
  "setCertificate certificate mediaKeys =
     (case certificate of
        Some c \<Rightarrow> (if mk_setServerCertificate mediaKeys
                   then [TrySettingServerCertificate mediaKeys c] else [])
      | None \<Rightarrow> [])"

definition handleInitEncryptedEvent ::
    "encrypted_event \<Rightarrow> 'c key_system_package \<Rightarrow> 'c eme_op list \<times> error option" where
  "handleInitEncryptedEvent encryptedEvent keySystemInfo =
     (let logged = [EmeLog (LogInfo ''eme: first encrypted event from current content'')] in
      case initData encryptedEvent of
        None \<Rightarrow>
          (logged, Some (CustomError EncryptedMediaError ''INVALID_ENCRYPTED_EVENT''
                  (Some (JsError ''no init data found on media encrypted event.'')) True))
      | Some data \<Rightarrow>
          (let ks = keySystem keySystemInfo;
               access = keySystemAccess keySystemInfo
           in case handleSessionStorage ks of
                (ops, Some e) \<Rightarrow> (logged @ ops, Some e)
              | (ops, None) \<Rightarrow>
                  (let mediaKeys = ka_mediaKeys access;
                       mksConfig = ka_configuration access
                   in (logged @ ops @ [CreateMediaKeys access]
                         @ setCertificate (serverCertificate ks) mediaKeys
                         @ [SetMediaKeysObs mediaKeys mksConfig ks,
                            ManageSessionCreation mediaKeys mksConfig ks
                              (initDataType encryptedEvent) data],
                       None))))"

text \<open>
  The function that \<open>handleOngoingPlaybackEncryptedEvents\<close> maps over the events;
  \<open>compareMksConfigurations\<close> belongs to the session module and is a parameter.
\<close>

definition handleOngoingEvent ::
    "('c \<Rightarrow> 'c option \<Rightarrow> bool) \<Rightarrow> 'c eme_context \<times> encrypted_event \<times> 'c key_system_package
      \<Rightarrow> 'c eme_op list \<times> error option" where
  "handleOngoingEvent compareMksConfigurations x =
     (case x of (ctx, encryptedEvent, keySystemInfo) \<Rightarrow>
      let logged = [EmeLog (LogInfo ''eme: encrypted event'')] in
      case video_mediaKeys ctx of
        None \<Rightarrow>
          (logged, Some (CustomError EncryptedMediaError ''INVALID_ENCRYPTED_EVENT''
                  (Some (JsError ''Video Element should have attached MediaKeys.'')) True))
      | Some mediaKeys \<Rightarrow>
         (case initData encryptedEvent of
            None \<Rightarrow>
              (logged, Some (CustomError EncryptedMediaError ''INVALID_ENCRYPTED_EVENT''
                      (Some (JsError ''No init data found on media encrypted event.'')) True))
          | Some data \<Rightarrow>
              (let ks = keySystem keySystemInfo;
                   access = keySystemAccess keySystemInfo
               in case handleSessionStorage ks of
                    (ops, Some e) \<Rightarrow> (logged @ ops, Some e)
                  | (ops, None) \<Rightarrow>
                      (let mksConfig = ka_configuration access in
                       if \<not> compareMksConfigurations mksConfig (mediaKeySystemConfiguration ctx)
                       then (logged @ ops,
                             Some (CustomError EncryptedMediaError ''INVALID_ENCRYPTED_EVENT''
                               (Some (JsError ''Can't have sev'')) True))
                       else (logged @ ops
                               @ setCertificate (serverCertificate ks) mediaKeys
                               @ [EmitMediaKeys mediaKeys,
                                  ManageSessionCreation mediaKeys mksConfig ks
                                    (initDataType encryptedEvent) data],
                             None)))))"

text \<open>
  \<open>source.mergeMap(f)\<close> and \<open>source.map(f)\<close> with an \<open>f\<close> that may throw: the values
  are handled in order and the first error ends the stream.
\<close>

fun mergeMap :: "('a \<Rightarrow> 'b list \<times> error option) \<Rightarrow> 'a list \<Rightarrow> 'b list \<times> error option" where
  "mergeMap f [] = ([], None)"
| "mergeMap f (x # xs) =
     (case f x of
        (ops, Some e) \<Rightarrow> (ops, Some e)
      | (ops, None) \<Rightarrow> (ops @ fst (mergeMap f xs), snd (mergeMap f xs)))"

definition handleOngoingPlaybackEncryptedEvents ::
    "('c \<Rightarrow> 'c option \<Rightarrow> bool) \<Rightarrow> ('c eme_context \<times> encrypted_event \<times> 'c key_system_package) list
      \<Rightarrow> 'c eme_op list \<times> error option" where
  "handleOngoingPlaybackEncryptedEvents compareMksConfigurations encryptedEvents =
     mergeMap (handleOngoingEvent compareMksConfigurations) encryptedEvents"

text \<open>
  \<open>createEME\<close>. Its two subscriptions to the \<open>encrypted\<close> events of the element are two
  inputs: the events that the first one sees (\<open>take(1)\<close> keeps one), and the events that
  the second one sees, each with the state it is handled in (\<open>skip(1)\<close> drops one).
  \<open>findCompatibleKeySystem\<close> belongs to the key-system module: a parameter, which gives
  nothing, an error or a package. \<open>combineLatest\<close> forwards its error at once, whether
  an event has arrived or not, and emits only when both an event and a package are there.
\<close>

definition createEME ::
    "(key_system_option list \<Rightarrow> (error + 'c key_system_package) option)
      \<Rightarrow> ('c \<Rightarrow> 'c option \<Rightarrow> bool) \<Rightarrow> key_system_option list
      \<Rightarrow> encrypted_event list \<Rightarrow> ('c eme_context \<times> encrypted_event) list
      \<Rightarrow> 'c eme_op list \<times> error option" where
  "createEME findCompatibleKeySystem compareMksConfigurations keySystems events laterEvents =
     (case findCompatibleKeySystem keySystems of
        None \<Rightarrow> ([], None)
      | Some (Inl e) \<Rightarrow> ([], Some e)
      | Some (Inr ks) \<Rightarrow>
          (case take 1 events of
             [] \<Rightarrow> ([], None)
           | evt # _ \<Rightarrow>
               (case handleInitEncryptedEvent evt ks of
                  (ops, Some e) \<Rightarrow> (ops, Some e)
                | (ops, None) \<Rightarrow>
                    (let ongoing = handleOngoingPlaybackEncryptedEvents compareMksConfigurations
                           (map (\<lambda>(ctx, ev). (ctx, ev, ks)) (drop 1 laterEvents))
                     in (ops @ fst ongoing, snd ongoing)))))"

text \<open>
  \<open>EMEManager\<close>; the list of key systems may be absent, and \<open>createEME\<close> is for a
  list that is there and not empty.
\<close>

definition EMEManager ::
    "(key_system_option list \<Rightarrow> (error + 'c key_system_package) option)
      \<Rightarrow> ('c \<Rightarrow> 'c option \<Rightarrow> bool) \<Rightarrow> key_system_option list option
      \<Rightarrow> encrypted_event list \<Rightarrow> ('c eme_context \<times> encrypted_event) list
      \<Rightarrow> 'c eme_op list \<times> error option" where
  "EMEManager findCompatibleKeySystem compareMksConfigurations keySystems events laterEvents =
     (case keySystems of
        Some (k # ks) \<Rightarrow>
          createEME findCompatibleKeySystem compareMksConfigurations (k # ks) events laterEvents
      | _ \<Rightarrow>
          mergeMap (\<lambda>_. ([EmeLog (LogError ''eme: ciphered media and no keySystem passed'')],
                Some (CustomError EncryptedMediaError ''MEDIA_IS_ENCRYPTED_ERROR'' None True)))
            events)"

section \<open>Media source: opening and resetting the media element\<close>

text \<open>
  The calls that \<open>resetMediaElement\<close> makes to the platform and to the custom source
  buffers. Each one is inside a \<open>try\<close>: whether a call throws is a parameter. Source
  buffers, native or custom, are objects named by numbers.
\<close>

datatype platform_call =
    SourceBufferAbort nat
  | RemoveSourceBuffer nat
  | CustomAbort nat
  | ClearVideoSrc
  | RevokeObjectURL string

definition no_throw :: "platform_call \<Rightarrow> bool" where
  "no_throw call = False"

text \<open>
  The variables that the closure of \<open>createMediaSource\<close> holds (\<open>mediaSource\<close>,
  \<open>objectURL\<close>), the two memories of source buffers with their keys in order, the
  \<open>src\<close> of the video element, and the calls and logs made so far.
\<close>

record open_closure =
  cl_mediaSource :: "media_source option"
  cl_objectURL :: "string option"
  cl_native :: "(string \<times> nat) list"
  cl_custom :: "(string \<times> nat) list"
  cl_video_src :: string
  cl_calls :: "platform_call list"
  cl_log :: "log_entry list"

text \<open>
  The loop \<open>for (let i = 0; i < sourceBuffers.length; i++)\<close> of \<open>resetMediaElement\<close>.
  \<open>sourceBuffers\<close> is the list of the media source itself: \<open>removeSourceBuffer\<close> takes
  the buffer out of it while the loop runs. \<open>readyState\<close> was read before the loop.
  The result is the list left in the media source, the calls and the logs.
\<close>

function disposeSourceBuffers ::
    "(platform_call \<Rightarrow> bool) \<Rightarrow> ready_state \<Rightarrow> nat \<Rightarrow> nat list
      \<Rightarrow> nat list \<times> platform_call list \<times> log_entry list" where
  "disposeSourceBuffers throws readyState i sourceBuffers =
     (if i < length sourceBuffers then
        (if readyState = Open \<and> throws (SourceBufferAbort (sourceBuffers ! i)) then
           (case disposeSourceBuffers throws readyState (Suc i) sourceBuffers of
              (left, calls, logs) \<Rightarrow>
                (left,
                 SourceBufferAbort (sourceBuffers ! i) # calls,
                 LogInfo ''aborting previous source buffer''
                   # LogWarn ''error while disposing souceBuffer'' # logs))
         else if throws (RemoveSourceBuffer (sourceBuffers ! i)) then
           (case disposeSourceBuffers throws readyState (Suc i) sourceBuffers of
              (left, calls, logs) \<Rightarrow>
                (left,
                 (if readyState = Open then [SourceBufferAbort (sourceBuffers ! i)] else [])
                   @ RemoveSourceBuffer (sourceBuffers ! i) # calls,
                 (if readyState = Open then [LogInfo ''aborting previous source buffer''] else [])
                   @ LogWarn ''error while disposing souceBuffer'' # logs))
         else
           (case disposeSourceBuffers throws readyState (Suc i)
                   (remove1 (sourceBuffers ! i) sourceBuffers) of
              (left, calls, logs) \<Rightarrow>
                (left,
                 (if readyState = Open then [SourceBufferAbort (sourceBuffers ! i)] else [])
                   @ RemoveSourceBuffer (sourceBuffers ! i) # calls,
                 (if readyState = Open then [LogInfo ''aborting previous source buffer''] else [])
                   @ logs)))
      else (sourceBuffers, [], []))"
  by pat_completeness auto
termination
  by (relation "measure (\<lambda>(throws, readyState, i, sourceBuffers). length sourceBuffers - i)")
    (auto simp: length_remove1)

declare disposeSourceBuffers.simps [simp del]

text \<open>The loop over the keys of \<open>customBuffers\<close>: abort, then delete the entry.\<close>

fun disposeCustomBuffers ::
    "(platform_call \<Rightarrow> bool) \<Rightarrow> (string \<times> nat) list \<Rightarrow> platform_call list \<times> log_entry list" where
  "disposeCustomBuffers throws [] = ([], [])"
| "disposeCustomBuffers throws ((bufferType, sourceBuffer) # rest) =
     (CustomAbort sourceBuffer # fst (disposeCustomBuffers throws rest),
      (if throws (CustomAbort sourceBuffer)
       then [LogWarn ''error while disposing souceBuffer''] else [])
        @ snd (disposeCustomBuffers throws rest))"

text \<open>
  \<open>resetMediaElement\<close>. \<open>clearVideoSrc\<close> belongs to the compatibility module; here it
  is a call, after which the \<open>src\<close> of the element is empty.
\<close>

definition resetMediaElement :: "(platform_call \<Rightarrow> bool) \<Rightarrow> open_closure \<Rightarrow> open_closure" where
  "resetMediaElement throws c =
     (let native =
            (case cl_mediaSource c of
               None \<Rightarrow> ([], [])
             | Some mediaSource \<Rightarrow>
                 (if ms_readyState mediaSource \<noteq> Closed
                  then snd (disposeSourceBuffers throws (ms_readyState mediaSource) 0
                              (ms_sourceBuffers mediaSource))
                  else ([], [])));
          custom = disposeCustomBuffers throws (cl_custom c);
          revoke =
            (case cl_objectURL c of
               None \<Rightarrow> ([], [])
             | Some objectURL \<Rightarrow>
                 ([RevokeObjectURL objectURL],
                  LogDebug ''revoking previous URL''
                    # (if throws (RevokeObjectURL objectURL)
                       then [LogWarn ''error while revoking ObjectURL''] else [])))
      in c\<lparr> cl_mediaSource := None,
             cl_objectURL := None,
             cl_native := [],
             cl_custom := [],
             cl_video_src := [],
             cl_calls := cl_calls c @ fst native @ fst custom @ [ClearVideoSrc] @ fst revoke,
             cl_log := cl_log c @ snd native @ snd custom @ snd revoke \<rparr>)"

text \<open>
  What subscribing to \<open>createMediaSource(url, video, withMediaSource, memory)\<close> does: the
  closure it leaves, and the error thrown or the value emitted. Whether the platform has
  \<open>MediaSource_\<close> (\<open>hasMediaSource\<close>) and the URL that \<open>URL.createObjectURL\<close> returns are parameters. The
  function returned for the unsubscription is \<open>resetMediaElement\<close> on that closure.
\<close>

definition createMediaSource ::
    "(platform_call \<Rightarrow> bool) \<Rightarrow> bool \<Rightarrow> string \<Rightarrow> string \<Rightarrow> string \<Rightarrow> bool
      \<Rightarrow> (string \<times> nat) list \<Rightarrow> (string \<times> nat) list
      \<Rightarrow> open_closure \<times> (error + string \<times> media_source option)" where
  "createMediaSource throws hasMediaSource createObjectURL url video_src withMediaSource
       nativeBuffers customBuffers =
     (let c = resetMediaElement throws
                \<lparr> cl_mediaSource = None,
                  cl_objectURL = (if video_src = [] then None else Some video_src),
                  cl_native = nativeBuffers,
                  cl_custom = customBuffers,
                  cl_video_src = video_src,
                  cl_calls = [],
                  cl_log = [] \<rparr>
      in if withMediaSource then
           (if \<not> hasMediaSource
            then (c, Inl (CustomError MediaError ''MEDIA_SOURCE_NOT_SUPPORTED'' None True))
            else
              (let mediaSource = \<lparr>ms_duration = NaN, ms_readyState = Closed, ms_sourceBuffers = []\<rparr>
               in (c\<lparr> cl_mediaSource := Some mediaSource,
                       cl_objectURL := Some createObjectURL,
                       cl_video_src := createObjectURL,
                       cl_log := cl_log c @ [LogInfo ''creating MediaSource'',
                                  LogInfo ''attaching MediaSource URL to video element''] \<rparr>,
                   Inr (url, Some mediaSource))))
         else
           (c\<lparr> cl_mediaSource := None,
                cl_objectURL := Some url,
                cl_video_src := url,
                cl_log := cl_log c @ [LogInfo ''attaching MediaSource URL to video element''] \<rparr>,
            Inr (url, None)))"

section \<open>Overlay track source buffer\<close>

text \<open>
  An overlay as a parser gives it (start, end and an HTML element, an object named by
  a number), and the entry that the source buffer makes of it for its buffer.
\<close>

record overlay =
  ov_start :: jsnum
  ov_end :: jsnum
  ov_element :: nat

record cue =
  cue_start :: jsnum
  cue_end :: jsnum
  cue_data :: nat

text \<open>The segment given to \<open>_append\<close>; its \<open>end\<close> may be undefined.\<close>

record 'd overlay_segment =
  seg_timescale :: jsnum
  seg_start :: jsnum
  seg_end :: "jsnum option"
  seg_data :: 'd
  seg_type :: string
  seg_timeOffset :: jsnum

text \<open>
  The parser of MetaDASH overlays. The \<open>div\<close> elements it creates are new objects,
  numbered from \<open>fresh\<close>; the function reads only the bounds of its data.
\<close>

record metadash_overlay =
  mo_start :: jsnum
  mo_end :: jsnum

definition parseMetaDASHOverlay :: "nat \<Rightarrow> metadash_overlay list \<Rightarrow> jsnum \<Rightarrow> overlay list" where
  "parseMetaDASHOverlay fresh data timeOffset =
     map (\<lambda>(i, overlayData).
            \<lparr> ov_start = js_add (mo_start overlayData) timeOffset,
              ov_end = js_add (mo_end overlayData) timeOffset,
              ov_element = i \<rparr>)
       (enumerate fresh data)"

text \<open>
  The state of an \<open>OverlayTrackSourceBuffer\<close>: its buffer of timed data and its
  buffered ranges (two classes that are not part of this development: their values are
  of any type, their methods are parameters), the current element, the children that
  the overlay element holds (none when the source buffer is created), whether
  \<open>_destroy$\<close> has fired, and the log.
\<close>

record ('b, 'r) overlay_sb =
  sb_buffer :: 'b
  sb_buffered :: 'r
  sb_currentElement :: "nat option"
  sb_children :: "nat list"
  sb_destroyed :: bool
  sb_log :: "log_entry list"

definition newOverlayTrackSourceBuffer :: "'b \<Rightarrow> 'r \<Rightarrow> ('b, 'r) overlay_sb" where
  "newOverlayTrackSourceBuffer emptyBuffer emptyRanges =
     \<lparr> sb_buffer = emptyBuffer,
       sb_buffered = emptyRanges,
       sb_currentElement = None,
       sb_children = [],
       sb_destroyed = False,
       sb_log = [LogDebug ''creating html text track source buffer''] \<rparr>"






text \<open>
  \<open>_append(data)\<close>: the source buffer afterwards and the error thrown, if any (reading
  the \<open>end\<close> of the last overlay when the parser gave none). \<open>parse\<close> is
  \<open>parseOverlayToElements\<close>, \<open>insertData\<close> the \<open>insert\<close> of the buffer and \<open>insertRange\<close>
  the \<open>insert\<close> of the buffered ranges.
\<close>

definition overlay_append ::
    "(string \<Rightarrow> 'd \<Rightarrow> jsnum \<Rightarrow> overlay list) \<Rightarrow> ('b \<Rightarrow> cue list \<Rightarrow> jsnum \<Rightarrow> jsnum \<Rightarrow> 'b)
      \<Rightarrow> ('r \<Rightarrow> jsnum \<Rightarrow> jsnum \<Rightarrow> 'r) \<Rightarrow> 'd overlay_segment
      \<Rightarrow> ('b, 'r) overlay_sb \<Rightarrow> ('b, 'r) overlay_sb \<times> error option" where
  "overlay_append parse insertData insertRange data sb =
     (let sb1 = sb\<lparr>sb_log := sb_log sb @ [LogDebug ''appending new html text tracks'']\<rparr>;
          timescaledStart = seg_start data;
          timescaledEnd = seg_end data
      in if (case timescaledEnd of
               None \<Rightarrow> False
             | Some e \<Rightarrow> js_truthy e \<and> js_le (js_sub e timescaledStart) (Num 0))
         then
           (sb1\<lparr>sb_log := sb_log sb1 @ [LogWarn
              ''Invalid text track appended: the start time is inferior or equal to the end time.'']\<rparr>,
            None)
         else
           (let startTime = js_div timescaledStart (seg_timescale data);
                endTime = map_option (\<lambda>e. js_div e (seg_timescale data)) timescaledEnd;
                overlays = parse (seg_type data) (seg_data data) (seg_timeOffset data);
                formattedData =
                  map (\<lambda>c. \<lparr>cue_start = ov_start c, cue_end = ov_end c, cue_data = ov_element c\<rparr>)
                    overlays
            in case (case endTime of
                       Some e \<Rightarrow> Some e
                     | None \<Rightarrow> (if overlays = [] then None else Some (ov_end (last overlays)))) of
                 None \<Rightarrow> (sb1, Some (JsError ''TypeError''))
               | Some endBound \<Rightarrow>
                   (sb1\<lparr> sb_buffer := insertData (sb_buffer sb1) formattedData startTime endBound,
                         sb_buffered := insertRange (sb_buffered sb1) startTime endBound \<rparr>,
                    None)))"








text \<open>
  The children that the overlay element should hold: the current element, as long as
  the source buffer has not been aborted.
\<close>

definition attached :: "('b, 'r) overlay_sb \<Rightarrow> nat list" where
  "attached sb =
     (if sb_destroyed sb then []
      else (case sb_currentElement sb of None \<Rightarrow> [] | Some e \<Rightarrow> [e]))"

section \<open>Stream: the buffers of the periods\<close>

record adaptation =
  ad_id :: string
  ad_mimeTypes :: "string list"

record period =
  p_id :: string
  p_start :: jsnum
  p_end :: "jsnum option"
  p_adaptations :: "(string \<times> adaptation list) list"

record manifest =
  m_periods :: "period list"
  m_adaptations :: "(string \<times> adaptation list) list"
  m_isLive :: bool
  m_duration :: jsnum

text \<open>
  The messages of a period buffer. Those of type \<open>filled\<close> and \<open>finished\<close> carry the
  wanted range; the others are told apart by their type.
\<close>

record wanted_range =
  wr_start :: jsnum
  wr_end :: jsnum

datatype buffer_event =
    AdaptationChange "adaptation option"
  | RepresentationChange
  | SegmentsQueued
  | Filled wanted_range
  | Finished wanted_range
  | OtherEvent string

datatype message_type =
    TAdaptationChange | TRepresentationChange | TSegmentsQueued | TFilled | TFinished
  | TOther string

fun event_type :: "buffer_event \<Rightarrow> message_type" where
  "event_type (AdaptationChange _) = TAdaptationChange"
| "event_type RepresentationChange = TRepresentationChange"
| "event_type SegmentsQueued = TSegmentsQueued"
| "event_type (Filled _) = TFilled"
| "event_type (Finished _) = TFinished"
| "event_type (OtherEvent s) = TOther s"

fun wantedRange :: "buffer_event \<Rightarrow> wanted_range option" where
  "wantedRange (Filled r) = Some r"
| "wantedRange (Finished r) = Some r"
| "wantedRange _ = None"

text \<open>
  A stream derived from \<open>periodBuffer$\<close> is the list of its values, each with the
  position in \<open>periodBuffer$\<close> of the message it comes from; \<open>merge\<close> follows the
  positions, the first stream first.
\<close>

fun distinctUntilChanged ::
    "('a \<Rightarrow> 'a \<Rightarrow> bool) \<Rightarrow> 'a option \<Rightarrow> (nat \<times> 'a) list \<Rightarrow> (nat \<times> 'a) list" where
  "distinctUntilChanged compare previous [] = []"
| "distinctUntilChanged compare previous ((t, x) # xs) =
     (case previous of
        None \<Rightarrow> (t, x) # distinctUntilChanged compare (Some x) xs
      | Some y \<Rightarrow>
          (if compare y x then distinctUntilChanged compare previous xs
           else (t, x) # distinctUntilChanged compare (Some x) xs))"

fun rx_merge :: "(nat \<times> 'a) list \<Rightarrow> (nat \<times> 'a) list \<Rightarrow> (nat \<times> 'a) list" where
  "rx_merge [] ys = ys"
| "rx_merge xs [] = xs"
| "rx_merge ((t, x) # xs) ((u, y) # ys) =
     (if t \<le> u then (t, x) # rx_merge xs ((u, y) # ys)
      else (u, y) # rx_merge ((t, x) # xs) ys)"

definition bufferEnded :: "(nat \<times> buffer_event) list \<Rightarrow> (nat \<times> buffer_event) list" where
  "bufferEnded periodBuffer =
     filter (\<lambda>(t, message). event_type message = TFilled)
       (distinctUntilChanged (\<lambda>a b. event_type a = event_type b) None periodBuffer)"

definition bufferFinished :: "(nat \<times> buffer_event) list \<Rightarrow> (nat \<times> buffer_event) list" where
  "bufferFinished periodBuffer =
     filter (\<lambda>(t, message). event_type message = TFinished) periodBuffer"

text \<open>
  \<open>switchNextBuffer$\<close>: when and for which period and adaptation \<open>createPeriodBuffer\<close>
  is called again, if it is. \<open>getPeriodForTime\<close> is a method of the manifest, here a
  parameter. An array of adaptations that is empty gives no adaptation.
\<close>

definition switchNextBuffer ::
    "(manifest \<Rightarrow> jsnum \<Rightarrow> period option) \<Rightarrow> manifest \<Rightarrow> string \<Rightarrow> (nat \<times> buffer_event) list
      \<Rightarrow> (nat \<times> period \<times> adaptation option) option" where
  "switchNextBuffer getPeriodForTime manifest bufferType periodBuffer =
     (case take 1 (rx_merge (bufferEnded periodBuffer) (bufferFinished periodBuffer)) of
        [] \<Rightarrow> None
      | (t, message) # _ \<Rightarrow>
          (case wantedRange message of
             None \<Rightarrow> None
           | Some wanted \<Rightarrow>
               (case getPeriodForTime manifest (js_add (wr_end wanted) (Num 2)) of
                  None \<Rightarrow> None
                | Some nextPeriod \<Rightarrow>
                    Some (t, nextPeriod,
                      (case map_of (p_adaptations nextPeriod) bufferType of
                         None \<Rightarrow> None
                       | Some adaptationsArr \<Rightarrow>
                           (case adaptationsArr of [] \<Rightarrow> None | a # _ \<Rightarrow> Some a))))))"

text \<open>
  \<open>createPeriodBuffer\<close>, for what it creates: the period buffers that follow the one of
  \<open>period\<close>, each with the position, among the messages of the buffer before it, of the
  message that made it. The messages of the \<open>n\<close>-th period buffer of a type come from
  the adaptation buffers and are given by \<open>messages\<close>. The recursion goes on as long as
  a period is found: it is bounded by \<open>fuel\<close>, and \<open>None\<close> says that it was not enough.
\<close>

fun createPeriodBuffer ::
    "nat \<Rightarrow> (manifest \<Rightarrow> jsnum \<Rightarrow> period option) \<Rightarrow> (string \<Rightarrow> nat \<Rightarrow> period \<Rightarrow> buffer_event list)
      \<Rightarrow> manifest \<Rightarrow> string \<Rightarrow> nat \<Rightarrow> period \<Rightarrow> (nat \<times> period \<times> adaptation option) list option" where
  "createPeriodBuffer 0 getPeriodForTime messages manifest bufferType n period = None"
| "createPeriodBuffer (Suc fuel) getPeriodForTime messages manifest bufferType n period =
     (case switchNextBuffer getPeriodForTime manifest bufferType
             (enumerate 0 (messages bufferType n period)) of
        None \<Rightarrow> Some []
      | Some (t, nextPeriod, adaptation) \<Rightarrow>
          map_option ((#) (t, nextPeriod, adaptation))
            (createPeriodBuffer fuel getPeriodForTime messages manifest bufferType (Suc n)
               nextPeriod))"

text \<open>\<open>_buffersArray\<close>: one chain of period buffers for each type of the first period.\<close>

definition buffersArray ::
    "nat \<Rightarrow> (manifest \<Rightarrow> jsnum \<Rightarrow> period option) \<Rightarrow> (string \<Rightarrow> nat \<Rightarrow> period \<Rightarrow> buffer_event list)
      \<Rightarrow> manifest \<Rightarrow> period
      \<Rightarrow> (string \<times> (nat \<times> period \<times> adaptation option) list option) list" where
  "buffersArray fuel getPeriodForTime messages manifest firstPlayedPeriod =
     map (\<lambda>bufferType.
            (bufferType,
             createPeriodBuffer fuel getPeriodForTime messages manifest bufferType 0
               firstPlayedPeriod))
       (map fst (p_adaptations firstPlayedPeriod))"

text \<open>
  The loop of \<open>createStream\<close> over the keys of \<open>manifest.adaptations\<close>, which adds
  the native source buffers: the types and codecs given to \<open>addNativeSourceBuffer\<close>,
  and the error thrown, if any. For a type that should have a native source buffer it
  reads \<open>adaptations[0].representations\<close>, where \<open>adaptations\<close> are those of the first
  period for the type, or an empty array: this throws a \<open>TypeError\<close> when there is no
  first adaptation. \<open>shouldHaveNativeSourceBuffer\<close> belongs to the source buffers
  module and is a parameter; an adaptation carries the mime type strings of its
  representations.
\<close>

fun addNativeSourceBuffers ::
    "(string \<Rightarrow> bool) \<Rightarrow> manifest \<Rightarrow> string list \<Rightarrow> (string \<times> string) list \<times> error option" where
  "addNativeSourceBuffers shouldHaveNativeSourceBuffer manifest [] = ([], None)"
| "addNativeSourceBuffers shouldHaveNativeSourceBuffer manifest (bufferType # rest) =
     (if shouldHaveNativeSourceBuffer bufferType then
        (case (case m_periods manifest of
                 [] \<Rightarrow> []
               | firstPeriod # _ \<Rightarrow>
                   (case map_of (p_adaptations firstPeriod) bufferType of
                      None \<Rightarrow> []
                    | Some adaptations \<Rightarrow> adaptations)) of
           [] \<Rightarrow> ([], Some (JsError ''TypeError''))
         | adaptation # _ \<Rightarrow>
             (case ad_mimeTypes adaptation of
                [] \<Rightarrow> addNativeSourceBuffers shouldHaveNativeSourceBuffer manifest rest
              | codec # _ \<Rightarrow>
                  ((bufferType, codec)
                     # fst (addNativeSourceBuffers shouldHaveNativeSourceBuffer manifest rest),
                   snd (addNativeSourceBuffers shouldHaveNativeSourceBuffer manifest rest))))
      else addNativeSourceBuffers shouldHaveNativeSourceBuffer manifest rest)"

text \<open>
  \<open>createStream(mediaSource, manifest)\<close>, up to the buffers: the media source after the
  call with the native source buffers added, the logs, and the error thrown or the
  first played period with its chains of period buffers. \<open>startTime\<close> is what
  \<open>getInitialTime\<close> computes. The managers that are merged with the buffers come from
  other modules and are left out.
\<close>

definition createStream ::
    "nat \<Rightarrow> (manifest \<Rightarrow> jsnum \<Rightarrow> period option) \<Rightarrow> (string \<Rightarrow> nat \<Rightarrow> period \<Rightarrow> buffer_event list)
      \<Rightarrow> (string \<Rightarrow> bool) \<Rightarrow> media_source option \<Rightarrow> manifest \<Rightarrow> jsnum
      \<Rightarrow> (media_source option \<times> (string \<times> string) list) \<times> log_entry list
          \<times> (error + period \<times> (string \<times> (nat \<times> period \<times> adaptation option) list option) list)" where
  "createStream fuel getPeriodForTime messages shouldHaveNativeSourceBuffer mediaSource manifest
       startTime =
     (case mediaSource of
        None \<Rightarrow>
          ((None, []), [], Inl (CustomError MediaError ''UNAVAILABLE_MEDIA_SOURCE'' None True))
      | Some ms \<Rightarrow>
          (let durationSet = setDurationToMediaSource ms (m_duration manifest);
               native = addNativeSourceBuffers shouldHaveNativeSourceBuffer manifest
                          (map fst (m_adaptations manifest))
           in case snd native of
                Some e \<Rightarrow> ((Some (fst durationSet), fst native), snd durationSet, Inl e)
              | None \<Rightarrow>
                  (let logs = snd durationSet @ [LogDebug ''calculating initial time'',
                                                 LogDebug ''initial time calculated:'']
                   in case getPeriodForTime manifest startTime of
                        None \<Rightarrow>
                          ((Some (fst durationSet), fst native), logs,
                           Inl (CustomError MediaError ''MEDIA_STARTING_TIME_NOT_FOUND'' None True))
                      | Some firstPlayedPeriod \<Rightarrow>
                          ((Some (fst durationSet), fst native), logs,
                           Inr (firstPlayedPeriod,
                                buffersArray fuel getPeriodForTime messages manifest
                                  firstPlayedPeriod)))))"

text \<open>
  Modelled from the spec: \<open>shouldHaveNativeSourceBuffer\<close> is not part of this
  development. The spec says that the sinks of audio and video are native and those
  of text and image custom. It serves as an instance of the parameter.
\<close>

definition nativeBufferType :: "string \<Rightarrow> bool" where
  "nativeBufferType bufferType = (bufferType = ''audio'' \<or> bufferType = ''video'')"

text \<open>
  Modelled from the spec: \<open>getPeriodForTime\<close> of the manifest is not part of this
  development. The spec says that the periods do not overlap and are ordered by their
  start; the period for a time is the first one that contains it. It serves as an
  instance of the parameter \<open>getPeriodForTime\<close>.
\<close>

definition periodForTime :: "manifest \<Rightarrow> jsnum \<Rightarrow> period option" where
  "periodForTime manifest time =
     find (\<lambda>p. js_le (p_start p) time
              \<and> (case p_end p of None \<Rightarrow> True | Some e \<Rightarrow> js_lt time e))
       (m_periods manifest)"

text \<open>
  A message that ends a period buffer, and what it means that a period buffer is made
  by a message: the message at position \<open>t\<close> is the first of type \<open>filled\<close> or
  \<open>finished\<close>, and looking up \<open>wantedRange.end + 2\<close> in the manifest gives \<open>found\<close>.
\<close>

definition ends :: "buffer_event \<Rightarrow> bool" where
  "ends message = (event_type message = TFilled \<or> event_type message = TFinished)"

definition made_by ::
    "(manifest \<Rightarrow> jsnum \<Rightarrow> period option) \<Rightarrow> manifest \<Rightarrow> buffer_event list \<Rightarrow> nat
      \<Rightarrow> period option \<Rightarrow> bool" where
  "made_by getPeriodForTime manifest trace t found =
     (t < length trace
      \<and> list_all (\<lambda>message. \<not> ends message) (take t trace)
      \<and> (case wantedRange (trace ! t) of
            None \<Rightarrow> False
          | Some wanted \<Rightarrow> getPeriodForTime manifest (js_add (wr_end wanted) (Num 2)) = found))"

text \<open>
  A content of two periods of thirty seconds with one video adaptation each, and the
  messages of its period buffers: the first one is filled up to second 29, the second
  one finishes at second 60.
\<close>

definition example_adaptation :: adaptation where
  "example_adaptation = \<lparr>ad_id = ''v1'', ad_mimeTypes = [''video/mp4'']\<rparr>"

definition example_period1 :: period where
  "example_period1 =
     \<lparr>p_id = ''p1'', p_start = Num 0, p_end = Some (Num 30),
      p_adaptations = [(''video'', [example_adaptation])]\<rparr>"

definition example_period2 :: period where
  "example_period2 =
     \<lparr>p_id = ''p2'', p_start = Num 30, p_end = Some (Num 60),
      p_adaptations = [(''video'', [example_adaptation])]\<rparr>"

definition example_manifest :: manifest where
  "example_manifest =
     \<lparr>m_periods = [example_period1, example_period2],
      m_adaptations = [(''video'', [example_adaptation])],
      m_isLive = False, m_duration = Num 60\<rparr>"

definition example_messages :: "string \<Rightarrow> nat \<Rightarrow> period \<Rightarrow> buffer_event list" where
  "example_messages bufferType n period =
     (if n = 0
      then [AdaptationChange (Some example_adaptation), SegmentsQueued,
            Filled \<lparr>wr_start = Num 0, wr_end = Num 29\<rparr>,
            Filled \<lparr>wr_start = Num 1, wr_end = Num 30\<rparr>]
      else [SegmentsQueued, Finished \<lparr>wr_start = Num 30, wr_end = Num 60\<rparr>])"

section \<open>Properties\<close>

subsection \<open>Duration of the media source\<close>

lemma js_strict_eq_PosInf: "js_strict_eq d PosInf = (d = PosInf)"
  by (cases d) simp_all

lemma js_strict_eq_same: "js_strict_eq a b \<Longrightarrow> a = b"
  by (cases a; cases b) simp_all

lemma js_strict_eq_refl: "js_strict_eq a a = (a \<noteq> NaN)"
  by (cases a) simp_all

lemma MAX_VALUE_finite: "MAX_VALUE \<noteq> PosInf" "MAX_VALUE \<noteq> NaN" "MAX_VALUE \<noteq> NegInf"
  by (simp_all add: MAX_VALUE_def)

text \<open>
  Claim C8, as amended. Setting the duration from a manifest whose duration is
  \<open>Infinity\<close>, as \<open>createStream\<close> does, stores \<open>Number.MAX_VALUE\<close>, a finite
  number, and never \<open>Infinity\<close>. Setting a duration other than \<open>Infinity\<close> that is
  strictly equal to the stored one changes nothing and logs nothing, and a duration
  that is NaN like the stored one leaves the media source as it is. Setting \<open>Infinity\<close>
  changes nothing exactly when \<open>Number.MAX_VALUE\<close> is stored already: a media source
  that holds \<open>Infinity\<close> is moved to \<open>Number.MAX_VALUE\<close>, with a log. Setting the same
  duration a second time changes nothing.
\<close>

theorem setDurationToMediaSource_infinity_and_same:
  "ms_duration (fst (setDurationToMediaSource ms PosInf)) = MAX_VALUE
   \<and> (\<exists>r. MAX_VALUE = Num r)
   \<and> ms_duration (fst (setDurationToMediaSource ms d)) \<noteq> PosInf
   \<and> (js_strict_eq (ms_duration ms) d \<and> d \<noteq> PosInf
        \<longrightarrow> setDurationToMediaSource ms d = (ms, []))
   \<and> (ms_duration ms = d \<and> d \<noteq> PosInf \<longrightarrow> fst (setDurationToMediaSource ms d) = ms)
   \<and> (ms_duration ms = MAX_VALUE
        \<longrightarrow> setDurationToMediaSource ms PosInf = (ms, []))
   \<and> (setDurationToMediaSource ms PosInf = (ms, []) \<longleftrightarrow> ms_duration ms = MAX_VALUE)
   \<and> (ms_duration ms = PosInf
        \<longrightarrow> setDurationToMediaSource ms PosInf
            = (ms\<lparr>ms_duration := MAX_VALUE\<rparr>, [LogInfo ''set duration''])
          \<and> fst (setDurationToMediaSource ms PosInf) \<noteq> ms)
   \<and> (d \<noteq> NaN
        \<longrightarrow> setDurationToMediaSource (fst (setDurationToMediaSource ms d)) d
            = (fst (setDurationToMediaSource ms d), []))
   \<and> (m_duration manifest = PosInf
        \<longrightarrow> map_option ms_duration
              (fst (fst (createStream fuel gp msgs native (Some ms) manifest startTime)))
            = Some MAX_VALUE)"
proof -
  have fin: "\<exists>r. MAX_VALUE = Num r"
    by (simp add: MAX_VALUE_def)
  have inf: "ms_duration (fst (setDurationToMediaSource ms PosInf)) = MAX_VALUE"
    by (auto simp: setDurationToMediaSource_def Let_def dest: js_strict_eq_same)
  have never: "ms_duration (fst (setDurationToMediaSource ms d)) \<noteq> PosInf"
    by (auto simp: setDurationToMediaSource_def Let_def js_strict_eq_PosInf MAX_VALUE_finite
        dest: js_strict_eq_same)
  have same: "js_strict_eq (ms_duration ms) d \<and> d \<noteq> PosInf
      \<longrightarrow> setDurationToMediaSource ms d = (ms, [])"
    by (simp add: setDurationToMediaSource_def Let_def js_strict_eq_PosInf)
  have same_value: "ms_duration ms = d \<and> d \<noteq> PosInf
      \<longrightarrow> fst (setDurationToMediaSource ms d) = ms"
    by (auto simp: setDurationToMediaSource_def Let_def js_strict_eq_PosInf)
  have same_inf: "ms_duration ms = MAX_VALUE
      \<longrightarrow> setDurationToMediaSource ms PosInf = (ms, [])"
    by (simp add: setDurationToMediaSource_def Let_def js_strict_eq_refl MAX_VALUE_finite)
  have only_inf: "setDurationToMediaSource ms PosInf = (ms, []) \<longleftrightarrow> ms_duration ms = MAX_VALUE"
    by (auto simp: setDurationToMediaSource_def Let_def js_strict_eq_refl MAX_VALUE_finite
        dest: js_strict_eq_same)
  have moved: "ms_duration ms = PosInf
      \<longrightarrow> setDurationToMediaSource ms PosInf
          = (ms\<lparr>ms_duration := MAX_VALUE\<rparr>, [LogInfo ''set duration''])
        \<and> fst (setDurationToMediaSource ms PosInf) \<noteq> ms"
  proof
    assume stored: "ms_duration ms = PosInf"
    then have "\<not> js_strict_eq (ms_duration ms) MAX_VALUE"
      using MAX_VALUE_finite(1) js_strict_eq_same by fastforce
    then have set: "setDurationToMediaSource ms PosInf
        = (ms\<lparr>ms_duration := MAX_VALUE\<rparr>, [LogInfo ''set duration''])"
      by (simp add: setDurationToMediaSource_def Let_def)
    have "ms_duration (ms\<lparr>ms_duration := MAX_VALUE\<rparr>) \<noteq> ms_duration ms"
      using stored MAX_VALUE_finite(1) by simp
    then have "ms\<lparr>ms_duration := MAX_VALUE\<rparr> \<noteq> ms"
      by metis
    with set show "setDurationToMediaSource ms PosInf
          = (ms\<lparr>ms_duration := MAX_VALUE\<rparr>, [LogInfo ''set duration''])
        \<and> fst (setDurationToMediaSource ms PosInf) \<noteq> ms"
      by simp
  qed
  have again: "d \<noteq> NaN
      \<longrightarrow> setDurationToMediaSource (fst (setDurationToMediaSource ms d)) d
          = (fst (setDurationToMediaSource ms d), [])"
    by (auto simp: setDurationToMediaSource_def Let_def js_strict_eq_PosInf MAX_VALUE_finite
        js_strict_eq_refl)
  have stream: "m_duration manifest = PosInf
      \<longrightarrow> map_option ms_duration
            (fst (fst (createStream fuel gp msgs native (Some ms) manifest startTime)))
          = Some MAX_VALUE"
    using inf by (simp add: createStream_def Let_def split: option.splits)
  from inf fin never same same_value same_inf only_inf moved again stream
  show ?thesis by blast
qed

theorem setDurationToMediaSource_infinity_and_same_witness:
  "ms_duration (fst (setDurationToMediaSource
      \<lparr>ms_duration = Num 30, ms_readyState = Open, ms_sourceBuffers = []\<rparr> PosInf)) = MAX_VALUE
   \<and> setDurationToMediaSource
        \<lparr>ms_duration = Num 30, ms_readyState = Open, ms_sourceBuffers = []\<rparr> (Num 30)
      = (\<lparr>ms_duration = Num 30, ms_readyState = Open, ms_sourceBuffers = []\<rparr>, [])"
  using setDurationToMediaSource_infinity_and_same
    [of "\<lparr>ms_duration = Num 30, ms_readyState = Open, ms_sourceBuffers = []\<rparr>" "Num 30"
        example_manifest]
  by simp

text \<open>
  The claim as stated fails: on a media source that holds \<open>Infinity\<close>, setting the
  duration \<open>Infinity\<close>, equal to the stored one, writes \<open>Number.MAX_VALUE\<close> and logs.
\<close>

theorem setDurationToMediaSource_counterexample:
  "js_strict_eq
      (ms_duration \<lparr>ms_duration = PosInf, ms_readyState = Open, ms_sourceBuffers = []\<rparr>) PosInf
   \<and> setDurationToMediaSource
        \<lparr>ms_duration = PosInf, ms_readyState = Open, ms_sourceBuffers = []\<rparr> PosInf
      = (\<lparr>ms_duration = MAX_VALUE, ms_readyState = Open, ms_sourceBuffers = []\<rparr>,
         [LogInfo ''set duration''])
   \<and> MAX_VALUE \<noteq> PosInf"
  by (simp add: setDurationToMediaSource_def MAX_VALUE_def)

subsection \<open>End of play\<close>

lemma takeUntil_end_completes:
  "p t \<Longrightarrow> snd (takeUntil (filter_notifier p (pre @ Notif t # post)))
     \<and> (\<exists>k. fst (takeUntil (filter_notifier p (pre @ Notif t # post))) = take k (sources pre))"
proof (induction pre)
  case Nil
  then show ?case by simp
next
  case (Cons x pre)
  show ?case
  proof (cases x)
    case (Src a)
    from Cons obtain k where
      "fst (takeUntil (filter_notifier p (pre @ Notif t # post))) = take k (sources pre)"
      by blast
    then have "fst (takeUntil (filter_notifier p ((x # pre) @ Notif t # post)))
        = take (Suc k) (sources (x # pre))"
      using Src by simp
    moreover have "snd (takeUntil (filter_notifier p ((x # pre) @ Notif t # post)))"
      using Cons Src by simp
    ultimately show ?thesis by blast
  next
    case (Notif n)
    show ?thesis
    proof (cases "p n")
      case True
      then have "fst (takeUntil (filter_notifier p ((x # pre) @ Notif t # post)))
          = take 0 (sources (x # pre))"
        using Notif by simp
      moreover have "snd (takeUntil (filter_notifier p ((x # pre) @ Notif t # post)))"
        using True Notif by simp
      ultimately show ?thesis by blast
    next
      case False
      then show ?thesis using Cons Notif by simp
    qed
  qed
qed

lemma takeUntil_first_end:
  "p t \<Longrightarrow> \<forall>n. Notif n \<in> set pre \<longrightarrow> \<not> p n \<Longrightarrow>
     takeUntil (filter_notifier p (pre @ Notif t # post)) = (sources pre, True)"
proof (induction pre)
  case Nil
  then show ?case by simp
next
  case (Cons x pre)
  then show ?case by (cases x) auto
qed

lemma takeUntil_no_end:
  "\<forall>n. Notif n \<in> set xs \<longrightarrow> \<not> p n \<Longrightarrow>
     takeUntil (filter_notifier p xs) = (sources xs, False)"
proof (induction xs)
  case Nil
  then show ?case by simp
next
  case (Cons x xs)
  then show ?case by (cases x) auto
qed

text \<open>
  Claim C2, as amended. As soon as a timing tick has a duration above zero and
  \<open>duration - currentTime < END_OF_PLAY\<close>, the stream of the orchestrator is complete:
  it has emitted events that arrived before that tick only, and all of them when no
  earlier tick had a duration above zero and \<open>duration - currentTime < END_OF_PLAY\<close>.
  A tick whose duration is not above zero never ends the play: as long as every tick is
  such a tick, or fails \<open>duration - currentTime < END_OF_PLAY\<close>, the stream emits every
  event and is not complete.
\<close>

theorem Stream_completes_at_end_of_play:
  "(js_gt (duration t) (Num 0) \<and> js_lt (js_sub (duration t) (currentTime t)) END_OF_PLAY
      \<longrightarrow> snd (Stream END_OF_PLAY (pre @ Notif t # post))
        \<and> (\<exists>k. fst (Stream END_OF_PLAY (pre @ Notif t # post)) = take k (sources pre))
        \<and> ((\<forall>n. Notif n \<in> set pre
               \<longrightarrow> \<not> (js_gt (duration n) (Num 0)
                      \<and> js_lt (js_sub (duration n) (currentTime n)) END_OF_PLAY))
            \<longrightarrow> Stream END_OF_PLAY (pre @ Notif t # post) = (sources pre, True)))
   \<and> ((\<forall>n. Notif n \<in> set arrivals \<longrightarrow> \<not> js_gt (duration n) (Num 0))
        \<longrightarrow> Stream END_OF_PLAY arrivals = (sources arrivals, False))
   \<and> ((\<forall>n. Notif n \<in> set arrivals
           \<longrightarrow> \<not> (js_gt (duration n) (Num 0)
                  \<and> js_lt (js_sub (duration n) (currentTime n)) END_OF_PLAY))
        \<longrightarrow> Stream END_OF_PLAY arrivals = (sources arrivals, False))"
proof -
  have ending: "snd (Stream END_OF_PLAY (pre @ Notif t # post))
        \<and> (\<exists>k. fst (Stream END_OF_PLAY (pre @ Notif t # post)) = take k (sources pre))
        \<and> ((\<forall>n. Notif n \<in> set pre
               \<longrightarrow> \<not> (js_gt (duration n) (Num 0)
                      \<and> js_lt (js_sub (duration n) (currentTime n)) END_OF_PLAY))
            \<longrightarrow> Stream END_OF_PLAY (pre @ Notif t # post) = (sources pre, True))"
    if "js_gt (duration t) (Num 0) \<and> js_lt (js_sub (duration t) (currentTime t)) END_OF_PLAY"
  proof -
    from that have e: "endOfPlay END_OF_PLAY t"
      by (simp add: endOfPlay_def)
    show ?thesis
      unfolding Stream_def
      using takeUntil_end_completes [of "endOfPlay END_OF_PLAY" t pre post, OF e]
        takeUntil_first_end [of "endOfPlay END_OF_PLAY" t pre post, OF e]
      by (simp add: endOfPlay_def)
  qed
  have going: "Stream END_OF_PLAY arrivals = (sources arrivals, False)"
    if "\<forall>n. Notif n \<in> set arrivals
           \<longrightarrow> \<not> (js_gt (duration n) (Num 0)
                  \<and> js_lt (js_sub (duration n) (currentTime n)) END_OF_PLAY)"
    unfolding Stream_def
    using that by (intro takeUntil_no_end) (simp add: endOfPlay_def)
  have no_duration: "Stream END_OF_PLAY arrivals = (sources arrivals, False)"
    if "\<forall>n. Notif n \<in> set arrivals \<longrightarrow> \<not> js_gt (duration n) (Num 0)"
    using that by (intro going) blast
  from ending going no_duration show ?thesis by blast
qed

theorem Stream_completes_at_end_of_play_witness:
  "Stream (Num (1/2))
     ([Src ''manifestChange'', Notif \<lparr>currentTime = Num 10, duration = Num 30\<rparr>, Src ''loaded'']
       @ Notif \<lparr>currentTime = Num (59/2 + 1/4), duration = Num 30\<rparr> # [Src ''speed''])
   = ([''manifestChange'', ''loaded''], True)
   \<and> Stream (Num (1/2))
       [Src ''manifestChange'', Notif \<lparr>currentTime = Num 0, duration = Num 0\<rparr>, Src ''loaded'']
     = ([''manifestChange'', ''loaded''], False)"
proof -
  have a: "js_gt (duration \<lparr>currentTime = Num (59/2 + 1/4), duration = Num 30\<rparr>) (Num 0)
      \<and> js_lt (js_sub (duration \<lparr>currentTime = Num (59/2 + 1/4), duration = Num 30\<rparr>)
      (currentTime \<lparr>currentTime = Num (59/2 + 1/4), duration = Num 30\<rparr>)) (Num (1/2))"
    by (simp add: js_gt_def js_sub_def)
  have c: "\<forall>n. Notif n \<in> set [Src ''manifestChange'',
        Notif \<lparr>currentTime = Num 10, duration = Num 30\<rparr>, Src ''loaded'']
      \<longrightarrow> \<not> (js_gt (duration n) (Num 0)
             \<and> js_lt (js_sub (duration n) (currentTime n)) (Num (1/2)))"
    by (simp add: js_sub_def js_gt_def)
  have d: "\<forall>n. Notif n \<in> set [Src ''manifestChange'',
        Notif \<lparr>currentTime = Num 0, duration = Num 0\<rparr>, Src ''loaded'']
      \<longrightarrow> \<not> js_gt (duration n) (Num 0)"
    by (simp add: js_gt_def)
  from Stream_completes_at_end_of_play
    [of "\<lparr>currentTime = Num (59/2 + 1/4), duration = Num 30\<rparr>" "Num (1/2)"
        "[Src ''manifestChange'', Notif \<lparr>currentTime = Num 10, duration = Num 30\<rparr>, Src ''loaded'']"
        "[Src ''speed'']"
        "[Src ''manifestChange'', Notif \<lparr>currentTime = Num 0, duration = Num 0\<rparr>, Src ''loaded'']"]
    a c d
  show ?thesis by simp
qed

text \<open>
  The claim as stated fails: a tick with \<open>duration = 0\<close> and \<open>currentTime = 0\<close>
  satisfies \<open>duration - currentTime < 0.5\<close>, and the stream goes on.
\<close>

theorem Stream_end_of_play_counterexample:
  "js_lt (js_sub (duration \<lparr>currentTime = Num 0, duration = Num 0\<rparr>)
            (currentTime \<lparr>currentTime = Num 0, duration = Num 0\<rparr>)) (Num (1/2))
   \<and> Stream (Num (1/2)) [Notif \<lparr>currentTime = Num 0, duration = Num 0\<rparr>, Src ''loaded'']
       = ([''loaded''], False)"
  by (simp add: Stream_def endOfPlay_def js_sub_def js_gt_def)

subsection \<open>Retry policy of the startup\<close>

text \<open>
  Claim C3. The retry options of the startup are \<open>totalRetry = 3\<close>,
  \<open>retryDelay = 250\<close> and \<open>resetDelay = 60000\<close>; \<open>shouldRetry\<close> refuses a known
  error that is fatal and accepts every other known error and every unknown error;
  \<open>errorSelector\<close>, which gives the error that is surfaced, wraps an unknown error in
  an \<open>OtherError\<close> of code \<open>NONE\<close> with \<open>fatal = true\<close> and returns a known error with
  its \<open>fatal\<close> flag set.
\<close>

theorem retryOptions_policy:
  "totalRetry retryOptions = 3 \<and> retryDelay retryOptions = 250
   \<and> resetDelay retryOptions = 60000
   \<and> (isKnownError e \<and> fatal e \<longrightarrow> \<not> shouldRetry retryOptions e)
   \<and> (isKnownError e \<and> \<not> fatal e \<longrightarrow> shouldRetry retryOptions e)
   \<and> (\<not> isKnownError e \<longrightarrow> shouldRetry retryOptions e
        \<and> errorSelector retryOptions e = CustomError OtherError ''NONE'' (Some e) True
        \<and> fatal (errorSelector retryOptions e))
   \<and> (isKnownError e \<longrightarrow> fatal (errorSelector retryOptions e)
        \<and> errorSelector retryOptions e = set_fatal e True
        \<and> isKnownError (errorSelector retryOptions e)
        \<and> error_code (errorSelector retryOptions e) = error_code e)"
  by (cases e) (simp_all add: retryOptions_def)

theorem retryOptions_policy_witness:
  "\<not> shouldRetry retryOptions (CustomError MediaError ''MEDIA_STARTING_TIME_NOT_FOUND'' None True)
   \<and> errorSelector retryOptions (CustomError NetworkError ''PIPELINE_LOAD_ERROR'' None False)
       = CustomError NetworkError ''PIPELINE_LOAD_ERROR'' None True"
  using retryOptions_policy [of "CustomError MediaError ''MEDIA_STARTING_TIME_NOT_FOUND'' None True"]
    retryOptions_policy [of "CustomError NetworkError ''PIPELINE_LOAD_ERROR'' None False"]
  by simp

subsection \<open>Protection\<close>

lemma handleSessionStorage_no_storage:
  "persistentLicense ks \<Longrightarrow> licenseStorage ks = None \<Longrightarrow>
     handleSessionStorage ks =
       ([], Some (CustomError EncryptedMediaError ''INVALID_KEY_SYSTEM''
             (Some (JsError ''no license storage found for persistent license.'')) True))"
  by (simp add: handleSessionStorage_def)

lemma handleSessionStorage_ops:
  "set (fst (handleSessionStorage ks)) \<subseteq> range SetStorage"
  by (auto simp: handleSessionStorage_def split: option.splits)

text \<open>
  Claim C5, as amended. With a key-system option that asks for a persistent license and
  has no license storage, handling an encrypted event that carries initialization data
  (for an event after the first: on an element that has \<open>MediaKeys\<close>) fails with an
  \<open>EncryptedMediaError\<close> of code \<open>INVALID_KEY_SYSTEM\<close> and \<open>fatal = true\<close>. An event
  that the earlier checks refuse (no initialization data, or, after the first event, no
  \<open>MediaKeys\<close> on the element) fails with an \<open>EncryptedMediaError\<close> of code
  \<open>INVALID_ENCRYPTED_EVENT\<close> and \<open>fatal = true\<close> instead. In every case the handler has
  done nothing but log: no storage is set, no \<open>MediaKeys\<close> and no session are created.
\<close>

theorem persistent_license_without_storage:
  assumes "persistentLicense (keySystem pkg)" and "licenseStorage (keySystem pkg) = None"
  shows "(initData evt \<noteq> None \<longrightarrow>
            snd (handleInitEncryptedEvent evt pkg)
              = Some (CustomError EncryptedMediaError ''INVALID_KEY_SYSTEM''
                  (Some (JsError ''no license storage found for persistent license.'')) True))
    \<and> (initData evt \<noteq> None \<and> video_mediaKeys ctx \<noteq> None \<longrightarrow>
            snd (handleOngoingEvent cmp (ctx, evt, pkg))
              = Some (CustomError EncryptedMediaError ''INVALID_KEY_SYSTEM''
                  (Some (JsError ''no license storage found for persistent license.'')) True))
    \<and> (initData evt = None \<longrightarrow>
            snd (handleInitEncryptedEvent evt pkg)
              = Some (CustomError EncryptedMediaError ''INVALID_ENCRYPTED_EVENT''
                  (Some (JsError ''no init data found on media encrypted event.'')) True))
    \<and> (video_mediaKeys ctx = None \<longrightarrow>
            snd (handleOngoingEvent cmp (ctx, evt, pkg))
              = Some (CustomError EncryptedMediaError ''INVALID_ENCRYPTED_EVENT''
                  (Some (JsError ''Video Element should have attached MediaKeys.'')) True))
    \<and> (video_mediaKeys ctx \<noteq> None \<and> initData evt = None \<longrightarrow>
            snd (handleOngoingEvent cmp (ctx, evt, pkg))
              = Some (CustomError EncryptedMediaError ''INVALID_ENCRYPTED_EVENT''
                  (Some (JsError ''No init data found on media encrypted event.'')) True))
    \<and> (\<exists>c r. snd (handleInitEncryptedEvent evt pkg)
              = Some (CustomError EncryptedMediaError c r True))
    \<and> (\<exists>c r. snd (handleOngoingEvent cmp (ctx, evt, pkg))
              = Some (CustomError EncryptedMediaError c r True))
    \<and> fst (handleInitEncryptedEvent evt pkg)
         = [EmeLog (LogInfo ''eme: first encrypted event from current content'')]
    \<and> fst (handleOngoingEvent cmp (ctx, evt, pkg)) = [EmeLog (LogInfo ''eme: encrypted event'')]
    \<and> ManageSessionCreation mk cfg ks ty d \<notin> set (fst (handleInitEncryptedEvent evt pkg))
    \<and> ManageSessionCreation mk cfg ks ty d \<notin> set (fst (handleOngoingEvent cmp (ctx, evt, pkg)))"
proof -
  have init: "snd (handleInitEncryptedEvent evt pkg)
      = (if initData evt = None
         then Some (CustomError EncryptedMediaError ''INVALID_ENCRYPTED_EVENT''
                (Some (JsError ''no init data found on media encrypted event.'')) True)
         else Some (CustomError EncryptedMediaError ''INVALID_KEY_SYSTEM''
                (Some (JsError ''no license storage found for persistent license.'')) True))"
    using assms
    by (auto simp: handleInitEncryptedEvent_def Let_def handleSessionStorage_no_storage
        split: option.splits)
  have ongoing: "snd (handleOngoingEvent cmp (ctx, evt, pkg))
      = (if video_mediaKeys ctx = None
         then Some (CustomError EncryptedMediaError ''INVALID_ENCRYPTED_EVENT''
                (Some (JsError ''Video Element should have attached MediaKeys.'')) True)
         else if initData evt = None
         then Some (CustomError EncryptedMediaError ''INVALID_ENCRYPTED_EVENT''
                (Some (JsError ''No init data found on media encrypted event.'')) True)
         else Some (CustomError EncryptedMediaError ''INVALID_KEY_SYSTEM''
                (Some (JsError ''no license storage found for persistent license.'')) True))"
    using assms
    by (auto simp: handleOngoingEvent_def Let_def handleSessionStorage_no_storage
        split: option.splits)
  have init_ops: "fst (handleInitEncryptedEvent evt pkg)
      = [EmeLog (LogInfo ''eme: first encrypted event from current content'')]"
    using assms
    by (auto simp: handleInitEncryptedEvent_def Let_def handleSessionStorage_no_storage
        split: option.splits)
  have ongoing_ops: "fst (handleOngoingEvent cmp (ctx, evt, pkg))
      = [EmeLog (LogInfo ''eme: encrypted event'')]"
    using assms
    by (auto simp: handleOngoingEvent_def Let_def handleSessionStorage_no_storage
        split: option.splits)
  show ?thesis
    by (simp add: init ongoing init_ops ongoing_ops)
qed

theorem persistent_license_without_storage_witness:
  "snd (handleInitEncryptedEvent \<lparr>initData = Some [1, 2, 3], initDataType = ''cenc''\<rparr>
      \<lparr>keySystem = \<lparr>ks_type = ''widevine'', persistentLicense = True, licenseStorage = None,
                     serverCertificate = None\<rparr>,
       keySystemAccess = \<lparr>ka_configuration = (0::nat),
                          ka_mediaKeys = \<lparr>mk_id = 0, mk_setServerCertificate = False\<rparr>\<rparr>\<rparr>)
   = Some (CustomError EncryptedMediaError ''INVALID_KEY_SYSTEM''
        (Some (JsError ''no license storage found for persistent license.'')) True)"
  using persistent_license_without_storage
    [of "\<lparr>keySystem = \<lparr>ks_type = ''widevine'', persistentLicense = True, licenseStorage = None,
                     serverCertificate = None\<rparr>,
       keySystemAccess = \<lparr>ka_configuration = (0::nat),
                          ka_mediaKeys = \<lparr>mk_id = 0, mk_setServerCertificate = False\<rparr>\<rparr>\<rparr>"
        "\<lparr>initData = Some [1, 2, 3], initDataType = ''cenc''\<rparr>"]
  by simp

text \<open>
  The claim as stated fails: an encrypted event without initialization data is refused
  first, with the code \<open>INVALID_ENCRYPTED_EVENT\<close>, by the handler of the first event
  and by the handler of the later ones.
\<close>

theorem persistent_license_without_storage_counterexample:
  "snd (handleInitEncryptedEvent \<lparr>initData = None, initDataType = ''cenc''\<rparr>
      \<lparr>keySystem = \<lparr>ks_type = ''widevine'', persistentLicense = True, licenseStorage = None,
                     serverCertificate = None\<rparr>,
       keySystemAccess = \<lparr>ka_configuration = (0::nat),
                          ka_mediaKeys = \<lparr>mk_id = 0, mk_setServerCertificate = False\<rparr>\<rparr>\<rparr>)
   = Some (CustomError EncryptedMediaError ''INVALID_ENCRYPTED_EVENT''
        (Some (JsError ''no init data found on media encrypted event.'')) True)
   \<and> snd (handleOngoingEvent ((=) \<circ> Some)
      (\<lparr>video_mediaKeys = Some \<lparr>mk_id = 0, mk_setServerCertificate = False\<rparr>,
        mediaKeySystemConfiguration = Some (0::nat)\<rparr>,
       \<lparr>initData = None, initDataType = ''cenc''\<rparr>,
       \<lparr>keySystem = \<lparr>ks_type = ''widevine'', persistentLicense = True, licenseStorage = None,
                     serverCertificate = None\<rparr>,
        keySystemAccess = \<lparr>ka_configuration = 0,
                           ka_mediaKeys = \<lparr>mk_id = 0, mk_setServerCertificate = False\<rparr>\<rparr>\<rparr>))
   = Some (CustomError EncryptedMediaError ''INVALID_ENCRYPTED_EVENT''
        (Some (JsError ''No init data found on media encrypted event.'')) True)
   \<and> ''INVALID_ENCRYPTED_EVENT'' \<noteq> ''INVALID_KEY_SYSTEM''"
  by (simp add: handleInitEncryptedEvent_def handleOngoingEvent_def)

lemma mergeMap_error:
  "snd (f x) \<noteq> None \<Longrightarrow> snd (mergeMap f (pre @ x # post)) \<noteq> None"
proof (induction pre)
  case Nil
  then show ?case by (cases "f x") auto
next
  case (Cons y pre)
  then show ?case by (cases "f y") (auto split: option.splits)
qed

lemma handleOngoingEvent_mismatch:
  assumes "\<not> cmp (ka_configuration (keySystemAccess pkg)) (mediaKeySystemConfiguration ctx)"
  shows "snd (handleOngoingEvent cmp (ctx, evt, pkg)) =
     (if video_mediaKeys ctx = None then
        Some (CustomError EncryptedMediaError ''INVALID_ENCRYPTED_EVENT''
          (Some (JsError ''Video Element should have attached MediaKeys.'')) True)
      else if initData evt = None then
        Some (CustomError EncryptedMediaError ''INVALID_ENCRYPTED_EVENT''
          (Some (JsError ''No init data found on media encrypted event.'')) True)
      else if persistentLicense (keySystem pkg) \<and> licenseStorage (keySystem pkg) = None then
        Some (CustomError EncryptedMediaError ''INVALID_KEY_SYSTEM''
          (Some (JsError ''no license storage found for persistent license.'')) True)
      else
        Some (CustomError EncryptedMediaError ''INVALID_ENCRYPTED_EVENT''
          (Some (JsError ''Can't have sev'')) True))"
  using assms
  by (auto simp: handleOngoingEvent_def handleSessionStorage_def Let_def split: option.splits)

lemma handleOngoingEvent_no_session:
  assumes "snd (handleOngoingEvent cmp (ctx, evt, pkg)) \<noteq> None"
  shows "ManageSessionCreation mk cfg ks ty d \<notin> set (fst (handleOngoingEvent cmp (ctx, evt, pkg)))"
  using assms
  by (auto simp: handleOngoingEvent_def handleSessionStorage_def Let_def
      split: option.splits if_splits)

text \<open>
  Claim C6, as amended. An encrypted event after the first whose key-system
  configuration differs from the established one makes the protection driver fail with
  a fatal \<open>EncryptedMediaError\<close>, and the whole stream of events with it, without creating
  a session. The code of the error is \<open>INVALID_ENCRYPTED_EVENT\<close>; it is
  \<open>INVALID_KEY_SYSTEM\<close> only when the element has \<open>MediaKeys\<close>, the event has
  initialization data and the key system asks for a persistent license without storage.
\<close>

theorem configuration_mismatch_fails:
  assumes "\<not> cmp (ka_configuration (keySystemAccess pkg)) (mediaKeySystemConfiguration ctx)"
  shows "(\<exists>c r. snd (handleOngoingEvent cmp (ctx, evt, pkg))
              = Some (CustomError EncryptedMediaError c r True)
            \<and> (c = ''INVALID_ENCRYPTED_EVENT''
               \<or> c = ''INVALID_KEY_SYSTEM'' \<and> video_mediaKeys ctx \<noteq> None \<and> initData evt \<noteq> None
                  \<and> persistentLicense (keySystem pkg) \<and> licenseStorage (keySystem pkg) = None))
    \<and> (video_mediaKeys ctx \<noteq> None \<and> initData evt \<noteq> None
        \<and> \<not> (persistentLicense (keySystem pkg) \<and> licenseStorage (keySystem pkg) = None)
        \<longrightarrow> snd (handleOngoingEvent cmp (ctx, evt, pkg))
            = Some (CustomError EncryptedMediaError ''INVALID_ENCRYPTED_EVENT''
                (Some (JsError ''Can't have sev'')) True))
    \<and> ManageSessionCreation mk cfg ks ty d \<notin> set (fst (handleOngoingEvent cmp (ctx, evt, pkg)))
    \<and> snd (handleOngoingPlaybackEncryptedEvents cmp (pre @ (ctx, evt, pkg) # post)) \<noteq> None"
proof -
  note m = handleOngoingEvent_mismatch [of cmp pkg ctx evt, OF assms]
  have failing: "snd (handleOngoingEvent cmp (ctx, evt, pkg)) \<noteq> None"
    by (simp add: m)
  have stream: "snd (handleOngoingPlaybackEncryptedEvents cmp (pre @ (ctx, evt, pkg) # post)) \<noteq> None"
    unfolding handleOngoingPlaybackEncryptedEvents_def
    using failing by (rule mergeMap_error)
  have kind: "\<exists>c r. snd (handleOngoingEvent cmp (ctx, evt, pkg))
              = Some (CustomError EncryptedMediaError c r True)
            \<and> (c = ''INVALID_ENCRYPTED_EVENT''
               \<or> c = ''INVALID_KEY_SYSTEM'' \<and> video_mediaKeys ctx \<noteq> None \<and> initData evt \<noteq> None
                  \<and> persistentLicense (keySystem pkg) \<and> licenseStorage (keySystem pkg) = None)"
    by (simp add: m)
  have code: "video_mediaKeys ctx \<noteq> None \<and> initData evt \<noteq> None
        \<and> \<not> (persistentLicense (keySystem pkg) \<and> licenseStorage (keySystem pkg) = None)
        \<longrightarrow> snd (handleOngoingEvent cmp (ctx, evt, pkg))
            = Some (CustomError EncryptedMediaError ''INVALID_ENCRYPTED_EVENT''
                (Some (JsError ''Can't have sev'')) True)"
    by (simp add: m)
  from kind code handleOngoingEvent_no_session [OF failing] stream show ?thesis
    by blast
qed

theorem configuration_mismatch_fails_witness:
  "snd (handleOngoingEvent ((=) \<circ> Some)
      (\<lparr>video_mediaKeys = Some \<lparr>mk_id = 0, mk_setServerCertificate = False\<rparr>,
        mediaKeySystemConfiguration = Some (1::nat)\<rparr>,
       \<lparr>initData = Some [1, 2, 3], initDataType = ''cenc''\<rparr>,
       \<lparr>keySystem = \<lparr>ks_type = ''widevine'', persistentLicense = False, licenseStorage = None,
                     serverCertificate = None\<rparr>,
        keySystemAccess = \<lparr>ka_configuration = 2,
                           ka_mediaKeys = \<lparr>mk_id = 0, mk_setServerCertificate = False\<rparr>\<rparr>\<rparr>))
   = Some (CustomError EncryptedMediaError ''INVALID_ENCRYPTED_EVENT''
        (Some (JsError ''Can't have sev'')) True)"
  using configuration_mismatch_fails
    [of "(=) \<circ> Some"
        "\<lparr>keySystem = \<lparr>ks_type = ''widevine'', persistentLicense = False, licenseStorage = None,
                     serverCertificate = None\<rparr>,
        keySystemAccess = \<lparr>ka_configuration = 2,
                           ka_mediaKeys = \<lparr>mk_id = 0, mk_setServerCertificate = False\<rparr>\<rparr>\<rparr>"
        "\<lparr>video_mediaKeys = Some \<lparr>mk_id = 0, mk_setServerCertificate = False\<rparr>,
        mediaKeySystemConfiguration = Some (1::nat)\<rparr>"
        "\<lparr>initData = Some [1, 2, 3], initDataType = ''cenc''\<rparr>"]
  by simp

text \<open>
  The claim as stated fails: on a mismatch of the configurations the error thrown has
  the code \<open>INVALID_ENCRYPTED_EVENT\<close>, not \<open>INVALID_KEY_SYSTEM\<close>.
\<close>

theorem configuration_mismatch_counterexample:
  "\<not> ((=) \<circ> Some) (2::nat) (Some 1)
   \<and> map_option error_code (snd (handleOngoingEvent ((=) \<circ> Some)
      (\<lparr>video_mediaKeys = Some \<lparr>mk_id = 0, mk_setServerCertificate = False\<rparr>,
        mediaKeySystemConfiguration = Some (1::nat)\<rparr>,
       \<lparr>initData = Some [1, 2, 3], initDataType = ''cenc''\<rparr>,
       \<lparr>keySystem = \<lparr>ks_type = ''widevine'', persistentLicense = False, licenseStorage = None,
                     serverCertificate = None\<rparr>,
        keySystemAccess = \<lparr>ka_configuration = 2,
                           ka_mediaKeys = \<lparr>mk_id = 0, mk_setServerCertificate = False\<rparr>\<rparr>\<rparr>)))
     = Some ''INVALID_ENCRYPTED_EVENT''
   \<and> ''INVALID_ENCRYPTED_EVENT'' \<noteq> ''INVALID_KEY_SYSTEM''"
  by (simp add: handleOngoingEvent_def handleSessionStorage_def)

text \<open>
  Claim C10. When the list of key-system options is absent or empty, the protection
  manager emits nothing as long as no encrypted event fires, and fails at the first
  encrypted event with an \<open>EncryptedMediaError\<close> of code \<open>MEDIA_IS_ENCRYPTED_ERROR\<close> and
  \<open>fatal = true\<close>; before failing it has only logged the error.
\<close>

theorem EMEManager_without_key_systems:
  assumes "keySystems = None \<or> keySystems = Some []"
  shows "EMEManager findKs cmp keySystems [] later = ([], None)
    \<and> EMEManager findKs cmp keySystems (evt # evts) later
        = ([EmeLog (LogError ''eme: ciphered media and no keySystem passed'')],
           Some (CustomError EncryptedMediaError ''MEDIA_IS_ENCRYPTED_ERROR'' None True))"
  using assms by (auto simp: EMEManager_def)

theorem EMEManager_without_key_systems_witness:
  "EMEManager (\<lambda>_. None) ((=) \<circ> Some) (Some [])
      [\<lparr>initData = Some [1, 2, 3], initDataType = ''cenc''\<rparr>]
      ([] :: (nat eme_context \<times> encrypted_event) list)
    = ([EmeLog (LogError ''eme: ciphered media and no keySystem passed'')],
       Some (CustomError EncryptedMediaError ''MEDIA_IS_ENCRYPTED_ERROR'' None True))"
  using EMEManager_without_key_systems
    [of "Some []" "\<lambda>_. None" "(=) \<circ> Some :: nat \<Rightarrow> nat option \<Rightarrow> bool" "[]"
        "\<lparr>initData = Some [1, 2, 3], initDataType = ''cenc''\<rparr>" "[]"]
  by simp

subsection \<open>Resetting the media element\<close>

lemma disposeSourceBuffers_first:
  "RemoveSourceBuffer sb \<in> set (fst (snd (disposeSourceBuffers throws readyState 0 (sb # rest))))
   \<and> (readyState = Open \<longrightarrow>
        SourceBufferAbort sb \<in> set (fst (snd (disposeSourceBuffers throws readyState 0 (sb # rest)))))
   \<or> readyState = Open \<and> throws (SourceBufferAbort sb)
      \<and> SourceBufferAbort sb \<in> set (fst (snd (disposeSourceBuffers throws readyState 0 (sb # rest))))"
  by (subst (1 2 3) disposeSourceBuffers.simps) (auto split: prod.splits)

lemma disposeSourceBuffers_not_open:
  "readyState \<noteq> Open \<Longrightarrow>
     SourceBufferAbort sb \<notin> set (fst (snd (disposeSourceBuffers throws readyState i sourceBuffers)))"
proof (induction throws readyState i sourceBuffers rule: disposeSourceBuffers.induct)
  case (1 throws readyState i sourceBuffers)
  show ?case
    by (subst disposeSourceBuffers.simps) (use 1 in \<open>auto split: prod.splits\<close>)
qed

lemma disposeSourceBuffers_skips:
  "disposeSourceBuffers no_throw Open 0 [1, 2]
     = ([2], [SourceBufferAbort 1, RemoveSourceBuffer 1], [LogInfo ''aborting previous source buffer''])"
  by (simp add: disposeSourceBuffers.simps no_throw_def)

lemma disposeCustomBuffers_all:
  "fst (disposeCustomBuffers throws custom) = map (CustomAbort \<circ> snd) custom"
  by (induction custom) auto


lemma resetMediaElement_fields:
  "cl_custom (resetMediaElement throws c) = []
   \<and> cl_native (resetMediaElement throws c) = []
   \<and> cl_mediaSource (resetMediaElement throws c) = None
   \<and> cl_objectURL (resetMediaElement throws c) = None
   \<and> cl_video_src (resetMediaElement throws c) = []"
  by (simp add: resetMediaElement_def Let_def)

lemma resetMediaElement_calls:
  "cl_calls (resetMediaElement throws c) =
     cl_calls c
     @ (case cl_mediaSource c of
          None \<Rightarrow> []
        | Some mediaSource \<Rightarrow>
            (if ms_readyState mediaSource \<noteq> Closed
             then fst (snd (disposeSourceBuffers throws (ms_readyState mediaSource) 0
                         (ms_sourceBuffers mediaSource)))
             else []))
     @ map (CustomAbort \<circ> snd) (cl_custom c)
     @ [ClearVideoSrc]
     @ (case cl_objectURL c of None \<Rightarrow> [] | Some u \<Rightarrow> [RevokeObjectURL u])"
  by (simp add: resetMediaElement_def Let_def disposeCustomBuffers_all split: option.splits)

text \<open>
  What a reset does whatever the media source: both memories of source buffers are
  emptied, \<open>abort\<close> is called on every custom source buffer, the \<open>src\<close> of the element
  is cleared and the object URL that the operation holds is revoked.
\<close>

lemma resetMediaElement_custom_and_src:
  "cl_custom (resetMediaElement throws c) = []
   \<and> cl_native (resetMediaElement throws c) = []
   \<and> cl_video_src (resetMediaElement throws c) = []
   \<and> (\<forall>b \<in> snd ` set (cl_custom c). CustomAbort b \<in> set (cl_calls (resetMediaElement throws c)))
   \<and> ClearVideoSrc \<in> set (cl_calls (resetMediaElement throws c))
   \<and> (\<forall>u. cl_objectURL c = Some u
          \<longrightarrow> RevokeObjectURL u \<in> set (cl_calls (resetMediaElement throws c)))"
  using resetMediaElement_fields [of throws c]
  by (auto simp: resetMediaElement_calls)

text \<open>
  The native source buffers are aborted under \<open>readyState === "open"\<close> only: those of a
  media source that has ended are removed without an \<open>abort\<close>.
\<close>

lemma resetMediaElement_ended:
  "cl_calls (resetMediaElement no_throw
      \<lparr>cl_mediaSource = Some \<lparr>ms_duration = Num 30, ms_readyState = Ended, ms_sourceBuffers = [1]\<rparr>,
       cl_objectURL = Some ''blob:1'', cl_native = [(''video'', 1)],
       cl_custom = [], cl_video_src = ''blob:1'', cl_calls = [], cl_log = []\<rparr>)
   = [RemoveSourceBuffer 1, ClearVideoSrc, RevokeObjectURL ''blob:1'']"
  by (simp add: resetMediaElement_def disposeSourceBuffers.simps no_throw_def)

lemma disposeSourceBuffers_two:
  assumes "\<not> throws (SourceBufferAbort a)" and "\<not> throws (RemoveSourceBuffer a)"
  shows "disposeSourceBuffers throws Open 0 [a, b]
     = ([b], [SourceBufferAbort a, RemoveSourceBuffer a],
        [LogInfo ''aborting previous source buffer''])"
proof -
  have stop: "disposeSourceBuffers throws Open (Suc 0) [b] = ([b], [], [])"
    by (subst disposeSourceBuffers.simps) simp
  show ?thesis
    by (subst disposeSourceBuffers.simps) (simp add: assms stop)
qed

text \<open>
  Claim C4 fails on an open media source that holds two native source buffers, the
  audio and the video one: the loop of the reset goes forward through the list of the
  media source while \<open>removeSourceBuffer\<close> takes the buffers out of it, so that it ends
  after the first buffer. The second buffer stays in the media source: the reset calls
  neither \<open>abort\<close> nor \<open>removeSourceBuffer\<close> on it.
\<close>

theorem resetMediaElement_second_native_buffer:
  assumes "cl_mediaSource c = Some ms" and "ms_readyState ms = Open"
    and "ms_sourceBuffers ms = [a, b]" and "a \<noteq> b"
    and "\<not> throws (SourceBufferAbort a)" and "\<not> throws (RemoveSourceBuffer a)"
  shows "fst (disposeSourceBuffers throws (ms_readyState ms) 0 (ms_sourceBuffers ms)) = [b]
    \<and> cl_calls (resetMediaElement throws c)
        = cl_calls c @ [SourceBufferAbort a, RemoveSourceBuffer a]
          @ map (CustomAbort \<circ> snd) (cl_custom c) @ [ClearVideoSrc]
          @ (case cl_objectURL c of None \<Rightarrow> [] | Some u \<Rightarrow> [RevokeObjectURL u])
    \<and> (SourceBufferAbort b \<notin> set (cl_calls c)
        \<longrightarrow> SourceBufferAbort b \<notin> set (cl_calls (resetMediaElement throws c)))
    \<and> (RemoveSourceBuffer b \<notin> set (cl_calls c)
        \<longrightarrow> RemoveSourceBuffer b \<notin> set (cl_calls (resetMediaElement throws c)))"
proof -
  note two = disposeSourceBuffers_two [OF assms(5) assms(6), of b]
  have calls: "cl_calls (resetMediaElement throws c)
        = cl_calls c @ [SourceBufferAbort a, RemoveSourceBuffer a]
          @ map (CustomAbort \<circ> snd) (cl_custom c) @ [ClearVideoSrc]
          @ (case cl_objectURL c of None \<Rightarrow> [] | Some u \<Rightarrow> [RevokeObjectURL u])"
    by (simp add: resetMediaElement_calls assms(1-3) two)
  have left: "fst (disposeSourceBuffers throws (ms_readyState ms) 0 (ms_sourceBuffers ms)) = [b]"
    by (simp add: assms(2,3) two)
  have no_abort: "SourceBufferAbort b \<notin> set (cl_calls c)
        \<longrightarrow> SourceBufferAbort b \<notin> set (cl_calls (resetMediaElement throws c))"
    using assms(4) by (auto simp: calls split: option.splits)
  have no_remove: "RemoveSourceBuffer b \<notin> set (cl_calls c)
        \<longrightarrow> RemoveSourceBuffer b \<notin> set (cl_calls (resetMediaElement throws c))"
    using assms(4) by (auto simp: calls split: option.splits)
  from left calls no_abort no_remove show ?thesis by blast
qed

theorem resetMediaElement_second_native_buffer_witness:
  "cl_calls (resetMediaElement no_throw
      \<lparr>cl_mediaSource =
         Some \<lparr>ms_duration = Num 30, ms_readyState = Open, ms_sourceBuffers = [1, 2]\<rparr>,
       cl_objectURL = Some ''blob:1'', cl_native = [(''audio'', 1), (''video'', 2)],
       cl_custom = [(''text'', 3)], cl_video_src = ''blob:1'', cl_calls = [], cl_log = []\<rparr>)
   = [SourceBufferAbort 1, RemoveSourceBuffer 1, CustomAbort 3, ClearVideoSrc,
      RevokeObjectURL ''blob:1'']"
  using resetMediaElement_second_native_buffer
    [of "\<lparr>cl_mediaSource =
         Some \<lparr>ms_duration = Num 30, ms_readyState = Open, ms_sourceBuffers = [1, 2]\<rparr>,
       cl_objectURL = Some ''blob:1'', cl_native = [(''audio'', 1), (''video'', 2)],
       cl_custom = [(''text'', 3)], cl_video_src = ''blob:1'', cl_calls = [], cl_log = []\<rparr>"
        "\<lparr>ms_duration = Num 30, ms_readyState = Open, ms_sourceBuffers = [1, 2]\<rparr>"
        1 2 no_throw]
  by (simp add: no_throw_def)

subsection \<open>Appending to the overlay source buffer\<close>

lemma overlay_append_rejects:
  assumes "seg_end data = Some e" and "js_truthy e"
    and "js_le (js_sub e (seg_start data)) (Num 0)"
  shows "overlay_append parse insertData insertRange data sb
     = (sb\<lparr>sb_log := sb_log sb @ [LogDebug ''appending new html text tracks'',
          LogWarn ''Invalid text track appended: the start time is inferior or equal to the end time.'']\<rparr>,
        None)"
  using assms by (simp add: overlay_append_def Let_def)

text \<open>
  Claim C7 fails on a segment whose end bound is \<open>0\<close>: the test
  \<open>timescaledEnd && timescaledEnd - timescaledStart <= 0\<close> takes \<open>0\<close> for an absent
  bound. Such a segment, with a start bound \<open>s \<ge> 0\<close>, is given to the buffer and to
  the buffered ranges, from \<open>s / timescale\<close> to \<open>0\<close>, and no warning is logged.
\<close>

theorem overlay_append_end_zero:
  assumes "0 \<le> s" and "k \<noteq> 0"
  shows "js_le (Num 0) (Num s)
    \<and> overlay_append parse insertData insertRange
        \<lparr>seg_timescale = Num k, seg_start = Num s, seg_end = Some (Num 0), seg_data = d,
         seg_type = ty, seg_timeOffset = off\<rparr> sb
      = (sb\<lparr> sb_log := sb_log sb @ [LogDebug ''appending new html text tracks''],
             sb_buffer := insertData (sb_buffer sb)
                (map (\<lambda>c. \<lparr>cue_start = ov_start c, cue_end = ov_end c, cue_data = ov_element c\<rparr>)
                   (parse ty d off))
                (Num (s / k)) (Num 0),
             sb_buffered := insertRange (sb_buffered sb) (Num (s / k)) (Num 0) \<rparr>,
         None)"
  using assms by (auto simp: overlay_append_def Let_def js_le_def)

theorem overlay_append_end_zero_witness:
  "overlay_append (\<lambda>ty. parseMetaDASHOverlay 0) (\<lambda>b cs s e. b @ cs) (\<lambda>r s e. r @ [(s, e)])
      \<lparr>seg_timescale = Num 1, seg_start = Num 0, seg_end = Some (Num 0),
       seg_data = [\<lparr>mo_start = Num 0, mo_end = Num 0\<rparr>],
       seg_type = ''metadash'', seg_timeOffset = Num 0\<rparr>
      (newOverlayTrackSourceBuffer [] [])
    = (\<lparr> sb_buffer = [\<lparr>cue_start = Num 0, cue_end = Num 0, cue_data = 0\<rparr>],
         sb_buffered = [(Num 0, Num 0)],
         sb_currentElement = None, sb_children = [], sb_destroyed = False,
         sb_log = [LogDebug ''creating html text track source buffer'',
                   LogDebug ''appending new html text tracks''] \<rparr>,
       None)"
  using overlay_append_end_zero [of 0 1 "\<lambda>ty. parseMetaDASHOverlay 0" "\<lambda>b cs s e. b @ cs"
      "\<lambda>r s e. r @ [(s, e)]" "[\<lparr>mo_start = Num 0, mo_end = Num 0\<rparr>]" "''metadash''" "Num 0"
      "newOverlayTrackSourceBuffer [] []"]
  by (simp add: newOverlayTrackSourceBuffer_def parseMetaDASHOverlay_def)

subsection \<open>The element displayed by the overlay source buffer\<close>












subsection \<open>Period buffers\<close>

lemma set_distinctUntilChanged:
  "set (distinctUntilChanged compare previous xs) \<subseteq> set xs"
proof (induction xs arbitrary: previous)
  case Nil
  then show ?case by simp
next
  case (Cons a xs)
  obtain t x where a: "a = (t, x)" by (cases a)
  show ?case
    using Cons [of previous] Cons [of "Some x"]
    by (auto simp: a split: option.splits)
qed

lemma rx_merge_left_first:
  "\<forall>(u, y) \<in> set ys. t < u \<Longrightarrow> take 1 (rx_merge ((t, x) # xs) ys) = [(t, x)]"
  by (cases ys) auto

lemma rx_merge_right_first:
  "\<forall>(u, y) \<in> set xs. t < u \<Longrightarrow> take 1 (rx_merge xs ((t, x) # ys)) = [(t, x)]"
  by (cases xs) auto

lemma first_end_general:
  assumes "sorted_wrt (<) (map fst xs)"
    and "\<forall>y. previous = Some y \<longrightarrow> event_type y \<noteq> TFilled"
  shows "take 1 (rx_merge
            (filter (\<lambda>(t, message). event_type message = TFilled)
               (distinctUntilChanged (\<lambda>a b. event_type a = event_type b) previous xs))
            (filter (\<lambda>(t, message). event_type message = TFinished) xs))
       = take 1 (filter (\<lambda>(t, message). ends message) xs)"
  using assms
proof (induction xs arbitrary: previous)
  case Nil
  then show ?case by simp
next
  case (Cons a xs)
  obtain t m where a: "a = (t, m)" by (cases a)
  let ?cmp = "\<lambda>a b. event_type a = event_type b"
  let ?filled = "\<lambda>(t, message). event_type message = TFilled"
  let ?finished = "\<lambda>(t, message). event_type message = TFinished"
  from Cons.prems(1) have later: "\<forall>(u, y) \<in> set xs. t < u"
    by (auto simp: a)
  from Cons.prems(1) have sorted: "sorted_wrt (<) (map fst xs)"
    by simp
  have later_duc: "\<forall>(u, y) \<in> set (filter ?filled (distinctUntilChanged ?cmp p xs)). t < u" for p
    using later set_distinctUntilChanged [of ?cmp p xs] by auto
  have later_fin: "\<forall>(u, y) \<in> set (filter ?finished xs). t < u"
    using later by auto
  consider (filled) "event_type m = TFilled" | (finished) "event_type m = TFinished"
    | (other) "event_type m \<noteq> TFilled" "event_type m \<noteq> TFinished"
    by blast
  then show ?case
  proof cases
    case filled
    then have "filter ?filled (distinctUntilChanged ?cmp previous (a # xs))
        = (t, m) # filter ?filled (distinctUntilChanged ?cmp (Some m) xs)"
      using Cons.prems(2) by (auto simp: a split: option.splits)
    moreover have "filter ?finished (a # xs) = filter ?finished xs"
      using filled by (simp add: a)
    ultimately show ?thesis
      using rx_merge_left_first [OF later_fin] filled by (simp add: a ends_def)
  next
    case finished
    have "\<exists>p. filter ?filled (distinctUntilChanged ?cmp previous (a # xs))
        = filter ?filled (distinctUntilChanged ?cmp p xs)"
      using finished by (auto simp: a split: option.splits)
    then obtain p where "filter ?filled (distinctUntilChanged ?cmp previous (a # xs))
        = filter ?filled (distinctUntilChanged ?cmp p xs)" ..
    moreover have "filter ?finished (a # xs) = (t, m) # filter ?finished xs"
      using finished by (simp add: a)
    ultimately show ?thesis
      using rx_merge_right_first [OF later_duc [of p]] finished by (simp add: a ends_def)
  next
    case other
    have "\<exists>p. (\<forall>y. p = Some y \<longrightarrow> event_type y \<noteq> TFilled)
        \<and> filter ?filled (distinctUntilChanged ?cmp previous (a # xs))
          = filter ?filled (distinctUntilChanged ?cmp p xs)"
    proof (cases "\<exists>y. previous = Some y \<and> event_type y = event_type m")
      case True
      then have "filter ?filled (distinctUntilChanged ?cmp previous (a # xs))
          = filter ?filled (distinctUntilChanged ?cmp previous xs)"
        by (auto simp: a)
      with Cons.prems(2) show ?thesis by blast
    next
      case False
      then have "filter ?filled (distinctUntilChanged ?cmp previous (a # xs))
          = filter ?filled (distinctUntilChanged ?cmp (Some m) xs)"
        using other by (auto simp: a split: option.splits)
      with other show ?thesis by blast
    qed
    then obtain p where p: "\<forall>y. p = Some y \<longrightarrow> event_type y \<noteq> TFilled"
      and eq: "filter ?filled (distinctUntilChanged ?cmp previous (a # xs))
          = filter ?filled (distinctUntilChanged ?cmp p xs)"
      by blast
    have "filter ?finished (a # xs) = filter ?finished xs"
      using other by (simp add: a)
    moreover have "filter (\<lambda>(t, message). ends message) (a # xs)
        = filter (\<lambda>(t, message). ends message) xs"
      using other by (simp add: a ends_def)
    ultimately show ?thesis
      using Cons.IH [OF sorted p] eq by simp
  qed
qed

lemma first_end:
  "take 1 (rx_merge (bufferEnded (enumerate k trace)) (bufferFinished (enumerate k trace)))
     = take 1 (filter (\<lambda>(t, message). ends message) (enumerate k trace))"
  unfolding bufferEnded_def bufferFinished_def
  by (rule first_end_general) (simp_all add: map_fst_enumerate)

lemma first_in_enumerate_Nil:
  "take 1 (filter (\<lambda>(t, message). P message) (enumerate k trace)) = []
     \<longleftrightarrow> (\<forall>m \<in> set trace. \<not> P m)"
  by (induction trace arbitrary: k) auto

lemma first_in_enumerate_Cons:
  "take 1 (filter (\<lambda>(t, message). P message) (enumerate k trace)) = (t, m) # rest
     \<Longrightarrow> \<exists>pre post. trace = pre @ m # post \<and> t = k + length pre
          \<and> (\<forall>x \<in> set pre. \<not> P x) \<and> P m"
proof (induction trace arbitrary: k)
  case Nil
  then show ?case by simp
next
  case (Cons a trace)
  show ?case
  proof (cases "P a")
    case True
    with Cons.prems have "t = k" "m = a" by simp_all
    with True show ?thesis
      by (intro exI [of _ "[]"] exI [of _ trace]) simp
  next
    case False
    with Cons.prems have "take 1 (filter (\<lambda>(t, message). P message) (enumerate (Suc k) trace))
        = (t, m) # rest"
      by simp
    from Cons.IH [OF this] obtain pre post where
      "trace = pre @ m # post" "t = Suc k + length pre" "\<forall>x \<in> set pre. \<not> P x" "P m"
      by blast
    with False have "a # trace = (a # pre) @ m # post \<and> t = k + length (a # pre)
        \<and> (\<forall>x \<in> set (a # pre). \<not> P x) \<and> P m"
      by simp
    then show ?thesis by blast
  qed
qed


lemma ends_wantedRange: "ends m \<longleftrightarrow> wantedRange m \<noteq> None"
  by (cases m) (simp_all add: ends_def)

lemma first_in_enumerate_at:
  assumes "t < length trace" and "\<forall>x \<in> set (take t trace). \<not> P x" and "P (trace ! t)"
  shows "take 1 (filter (\<lambda>(t, message). P message) (enumerate k trace)) = [(k + t, trace ! t)]"
  using assms
proof (induction trace arbitrary: k t)
  case Nil
  then show ?case by simp
next
  case (Cons a trace)
  show ?case
  proof (cases t)
    case 0
    with Cons.prems show ?thesis by simp
  next
    case (Suc j)
    with Cons.prems have "j < length trace" "\<forall>x \<in> set (take j trace). \<not> P x" "P (trace ! j)"
      and "\<not> P a"
      by simp_all
    with Cons.IH [of j "Suc k"] Suc show ?thesis by simp
  qed
qed

lemma switchNextBuffer_no_end:
  assumes "take 1 (filter (\<lambda>(t, message). ends message) (enumerate 0 trace)) = []"
  shows "switchNextBuffer gp manifest bufferType (enumerate 0 trace) = None"
  unfolding switchNextBuffer_def first_end using assms by simp

lemma switchNextBuffer_first_end:
  assumes "take 1 (filter (\<lambda>(t, message). ends message) (enumerate 0 trace)) = (t, m) # rest"
  shows "switchNextBuffer gp manifest bufferType (enumerate 0 trace)
     = (case wantedRange m of
          None \<Rightarrow> None
        | Some wanted \<Rightarrow>
            (case gp manifest (js_add (wr_end wanted) (Num 2)) of
               None \<Rightarrow> None
             | Some nextPeriod \<Rightarrow>
                 Some (t, nextPeriod,
                   (case map_of (p_adaptations nextPeriod) bufferType of
                      None \<Rightarrow> None
                    | Some adaptationsArr \<Rightarrow>
                        (case adaptationsArr of [] \<Rightarrow> None | a # _ \<Rightarrow> Some a)))))"
  unfolding switchNextBuffer_def first_end using assms by simp

lemma made_by_first:
  assumes "made_by gp manifest trace t found"
  shows "take 1 (filter (\<lambda>(t, message). ends message) (enumerate 0 trace)) = [(t, trace ! t)]"
proof -
  from assms have "t < length trace" "\<forall>x \<in> set (take t trace). \<not> ends x" "ends (trace ! t)"
    by (auto simp: made_by_def list_all_iff ends_wantedRange split: option.splits)
  from first_in_enumerate_at [of t trace ends 0, OF this] show ?thesis by simp
qed

lemma first_made_by:
  assumes "take 1 (filter (\<lambda>(t, message). ends message) (enumerate 0 trace)) = (t, m) # rest"
    and "wantedRange m = Some r"
  shows "made_by gp manifest trace t (gp manifest (js_add (wr_end r) (Num 2)))"
proof -
  from first_in_enumerate_Cons [OF assms(1)] obtain pre post where
    "trace = pre @ m # post" "t = length pre" "\<forall>x \<in> set pre. \<not> ends x"
    by auto
  with assms(2) show ?thesis
    by (auto simp: made_by_def list_all_iff)
qed

lemma switchNextBuffer_Some:
  "(\<exists>a. switchNextBuffer gp manifest bufferType (enumerate 0 trace) = Some (t, p, a))
     \<longleftrightarrow> made_by gp manifest trace t (Some p)"
proof
  assume "\<exists>a. switchNextBuffer gp manifest bufferType (enumerate 0 trace) = Some (t, p, a)"
  then obtain a where
    s: "switchNextBuffer gp manifest bufferType (enumerate 0 trace) = Some (t, p, a)" ..
  show "made_by gp manifest trace t (Some p)"
  proof (cases "take 1 (filter (\<lambda>(t, message). ends message) (enumerate 0 trace))")
    case Nil
    from switchNextBuffer_no_end [OF this] s show ?thesis by simp
  next
    case (Cons x rest)
    obtain u m where x: "x = (u, m)" by (cases x)
    note first = Cons [unfolded x]
    from s switchNextBuffer_first_end [OF first, of gp manifest bufferType]
    obtain r where "wantedRange m = Some r" "gp manifest (js_add (wr_end r) (Num 2)) = Some p"
      and "u = t"
      by (auto split: option.splits)
    with first_made_by [OF first, of r gp manifest] show ?thesis by simp
  qed
next
  assume m: "made_by gp manifest trace t (Some p)"
  then obtain r where "wantedRange (trace ! t) = Some r"
    "gp manifest (js_add (wr_end r) (Num 2)) = Some p"
    by (auto simp: made_by_def split: option.splits)
  with switchNextBuffer_first_end [OF made_by_first [OF m], of gp manifest bufferType]
  show "\<exists>a. switchNextBuffer gp manifest bufferType (enumerate 0 trace) = Some (t, p, a)"
    by simp
qed

lemma switchNextBuffer_None:
  "switchNextBuffer gp manifest bufferType (enumerate 0 trace) = None
     \<longleftrightarrow> list_all (\<lambda>message. \<not> ends message) trace \<or> (\<exists>t. made_by gp manifest trace t None)"
proof
  assume n: "switchNextBuffer gp manifest bufferType (enumerate 0 trace) = None"
  show "list_all (\<lambda>message. \<not> ends message) trace \<or> (\<exists>t. made_by gp manifest trace t None)"
  proof (cases "take 1 (filter (\<lambda>(t, message). ends message) (enumerate 0 trace))")
    case Nil
    then show ?thesis
      using first_in_enumerate_Nil [of ends 0 trace] by (simp add: list_all_iff)
  next
    case (Cons x rest)
    obtain t m where x: "x = (t, m)" by (cases x)
    note first = Cons [unfolded x]
    from first_in_enumerate_Cons [OF first] have "ends m" by auto
    then obtain r where r: "wantedRange m = Some r"
      by (auto simp: ends_wantedRange)
    with n switchNextBuffer_first_end [OF first, of gp manifest bufferType]
    have "gp manifest (js_add (wr_end r) (Num 2)) = None"
      by (auto split: option.splits)
    with first_made_by [OF first r, of gp manifest] show ?thesis by auto
  qed
next
  assume "list_all (\<lambda>message. \<not> ends message) trace \<or> (\<exists>t. made_by gp manifest trace t None)"
  then show "switchNextBuffer gp manifest bufferType (enumerate 0 trace) = None"
  proof
    assume "list_all (\<lambda>message. \<not> ends message) trace"
    then have "take 1 (filter (\<lambda>(t, message). ends message) (enumerate 0 trace)) = []"
      using first_in_enumerate_Nil [of ends 0 trace] by (simp add: list_all_iff)
    then show ?thesis by (rule switchNextBuffer_no_end)
  next
    assume "\<exists>t. made_by gp manifest trace t None"
    then obtain t where m: "made_by gp manifest trace t None" ..
    then obtain r where "wantedRange (trace ! t) = Some r"
      "gp manifest (js_add (wr_end r) (Num 2)) = None"
      by (auto simp: made_by_def split: option.splits)
    with switchNextBuffer_first_end [OF made_by_first [OF m], of gp manifest bufferType]
    show ?thesis by simp
  qed
qed

lemma createPeriodBuffer_chain:
  assumes "createPeriodBuffer fuel gp msgs manifest bufferType n period = Some spawned"
  shows "(\<forall>i < length spawned.
            \<exists>a. switchNextBuffer gp manifest bufferType
                (enumerate 0 (msgs bufferType (n + i)
                   ((period # map (\<lambda>s. fst (snd s)) spawned) ! i)))
              = Some (fst (spawned ! i), (period # map (\<lambda>s. fst (snd s)) spawned) ! Suc i, a))
    \<and> switchNextBuffer gp manifest bufferType
          (enumerate 0 (msgs bufferType (n + length spawned)
             (last (period # map (\<lambda>s. fst (snd s)) spawned))))
        = None"
  using assms
proof (induction fuel arbitrary: n period spawned)
  case 0
  then show ?case by simp
next
  case (Suc fuel)
  show ?case
  proof (cases "switchNextBuffer gp manifest bufferType (enumerate 0 (msgs bufferType n period))")
    case None
    with Suc.prems have "spawned = []" by simp
    with None show ?thesis by simp
  next
    case (Some made)
    obtain t p a where made: "made = (t, p, a)" by (cases made)
    from Suc.prems Some made obtain rest where
      rest: "createPeriodBuffer fuel gp msgs manifest bufferType (Suc n) p = Some rest"
      and spawned: "spawned = (t, p, a) # rest"
      by auto
    note ih = Suc.IH [OF rest]
    have "\<exists>a. switchNextBuffer gp manifest bufferType
                (enumerate 0 (msgs bufferType (n + i)
                   ((period # map (\<lambda>s. fst (snd s)) spawned) ! i)))
              = Some (fst (spawned ! i), (period # map (\<lambda>s. fst (snd s)) spawned) ! Suc i, a)"
      if "i < length spawned" for i
    proof (cases i)
      case 0
      with Some made spawned show ?thesis by simp
    next
      case (Suc j)
      with that spawned have j: "j < length rest" by simp
      from ih have "\<exists>a. switchNextBuffer gp manifest bufferType
                (enumerate 0 (msgs bufferType (Suc n + j)
                   ((p # map (\<lambda>s. fst (snd s)) rest) ! j)))
              = Some (fst (rest ! j), (p # map (\<lambda>s. fst (snd s)) rest) ! Suc j, a)"
        using j by blast
      then show ?thesis
        by (simp add: Suc spawned)
    qed
    moreover have "switchNextBuffer gp manifest bufferType
          (enumerate 0 (msgs bufferType (n + length spawned)
             (last (period # map (\<lambda>s. fst (snd s)) spawned))))
        = None"
      using ih spawned by simp
    ultimately show ?thesis by blast
  qed
qed


lemma buffersArray_types:
  "map fst (buffersArray fuel gp msgs manifest firstPlayedPeriod)
     = map fst (p_adaptations firstPlayedPeriod)"
  by (simp add: buffersArray_def comp_def)

text \<open>
  Claim C1. There is a chain of period buffers for every track type of the first
  played period and for no other. In a chain, each period buffer after the first is
  made by a message of the period buffer before it, the first of its messages of type
  \<open>filled\<close> or \<open>finished\<close>, and its period is the one that the manifest gives for the
  time \<open>wantedRange.end + 2\<close> of that message. The chain stops at a period buffer that
  has no such message, or that has one for which the manifest gives no period. A period
  buffer is made under this condition only, whatever the messages are.
\<close>

theorem period_buffers_made_by_filled_or_finished:
  assumes "snd (snd (createStream fuel gp msgs native mediaSource manifest startTime))
      = Inr (firstPlayedPeriod, buffers)"
    and "(bufferType, Some spawned) \<in> set buffers"
    and "periods = firstPlayedPeriod # map (\<lambda>s. fst (snd s)) spawned"
  shows "gp manifest startTime = Some firstPlayedPeriod
    \<and> bufferType \<in> fst ` set (p_adaptations firstPlayedPeriod)
    \<and> map fst buffers = map fst (p_adaptations firstPlayedPeriod)
    \<and> (\<forall>i < length spawned.
          made_by gp manifest (msgs bufferType i (periods ! i)) (fst (spawned ! i))
            (Some (periods ! Suc i)))
    \<and> (list_all (\<lambda>message. \<not> ends message) (msgs bufferType (length spawned) (last periods))
        \<or> (\<exists>t. made_by gp manifest (msgs bufferType (length spawned) (last periods)) t None))
    \<and> (\<forall>trace t p.
          (\<exists>a. switchNextBuffer gp manifest bufferType (enumerate 0 trace) = Some (t, p, a))
            \<longleftrightarrow> made_by gp manifest trace t (Some p))"
proof -
  from assms(1) have first: "gp manifest startTime = Some firstPlayedPeriod"
    and buffers: "buffers = buffersArray fuel gp msgs manifest firstPlayedPeriod"
    by (auto simp: createStream_def Let_def split: option.splits)
  from assms(2) have type: "bufferType \<in> fst ` set (p_adaptations firstPlayedPeriod)"
    and chain: "createPeriodBuffer fuel gp msgs manifest bufferType 0 firstPlayedPeriod
      = Some spawned"
    by (auto simp: buffers buffersArray_def)
  note c = createPeriodBuffer_chain [OF chain, folded assms(3)]
  have made: "\<forall>i < length spawned.
      made_by gp manifest (msgs bufferType i (periods ! i)) (fst (spawned ! i))
        (Some (periods ! Suc i))"
  proof (intro allI impI)
    fix i
    assume "i < length spawned"
    with c have "\<exists>a. switchNextBuffer gp manifest bufferType
        (enumerate 0 (msgs bufferType i (periods ! i)))
      = Some (fst (spawned ! i), periods ! Suc i, a)"
      by simp
    then show "made_by gp manifest (msgs bufferType i (periods ! i)) (fst (spawned ! i))
        (Some (periods ! Suc i))"
      by (simp only: switchNextBuffer_Some)
  qed
  from c have "switchNextBuffer gp manifest bufferType
      (enumerate 0 (msgs bufferType (length spawned) (last periods))) = None"
    by simp
  then have stop: "list_all (\<lambda>message. \<not> ends message)
        (msgs bufferType (length spawned) (last periods))
      \<or> (\<exists>t. made_by gp manifest (msgs bufferType (length spawned) (last periods)) t None)"
    by (simp only: switchNextBuffer_None)
  from first type buffersArray_types [of fuel gp msgs manifest firstPlayedPeriod] made stop
    switchNextBuffer_Some [of gp manifest bufferType]
  show ?thesis unfolding buffers by blast
qed

lemma example_first_buffer:
  "switchNextBuffer periodForTime example_manifest ''video''
      (enumerate 0 (example_messages ''video'' 0 example_period1))
    = Some (2, example_period2, Some example_adaptation)"
  by (simp add: switchNextBuffer_def bufferEnded_def bufferFinished_def example_messages_def
      periodForTime_def example_manifest_def example_period1_def example_period2_def js_le_def)

lemma example_second_buffer:
  "switchNextBuffer periodForTime example_manifest ''video''
      (enumerate 0 (example_messages ''video'' (Suc 0) example_period2))
    = None"
  by (simp add: switchNextBuffer_def bufferEnded_def bufferFinished_def example_messages_def
      periodForTime_def example_manifest_def example_period1_def example_period2_def js_le_def)

lemma example_buffers:
  "buffersArray 3 periodForTime example_messages example_manifest example_period1
     = [(''video'', Some [(2, example_period2, Some example_adaptation)])]"
proof -
  have "createPeriodBuffer 3 periodForTime example_messages example_manifest ''video'' 0
      example_period1 = Some [(2, example_period2, Some example_adaptation)]"
    by (simp add: numeral_3_eq_3 example_first_buffer example_second_buffer)
  then show ?thesis
    by (simp add: buffersArray_def example_period1_def)
qed

lemma example_stream:
  "snd (snd (createStream 3 periodForTime example_messages nativeBufferType
       (Some \<lparr>ms_duration = NaN, ms_readyState = Open, ms_sourceBuffers = []\<rparr>)
       example_manifest (Num 0)))
     = Inr (example_period1, [(''video'', Some [(2, example_period2, Some example_adaptation)])])"
proof -
  have "periodForTime example_manifest (Num 0) = Some example_period1"
    by (simp add: periodForTime_def example_manifest_def example_period1_def js_le_def)
  moreover have "addNativeSourceBuffers nativeBufferType example_manifest
      (map fst (m_adaptations example_manifest)) = ([(''video'', ''video/mp4'')], None)"
    by (simp add: example_manifest_def example_period1_def example_adaptation_def
        nativeBufferType_def)
  ultimately show ?thesis
    by (simp add: createStream_def Let_def example_buffers)
qed

theorem period_buffers_made_by_filled_or_finished_witness:
  "snd (snd (createStream 3 periodForTime example_messages nativeBufferType
       (Some \<lparr>ms_duration = NaN, ms_readyState = Open, ms_sourceBuffers = []\<rparr>)
       example_manifest (Num 0)))
     = Inr (example_period1, [(''video'', Some [(2, example_period2, Some example_adaptation)])])
   \<and> made_by periodForTime example_manifest (example_messages ''video'' 0 example_period1) 2
       (Some example_period2)"
proof -
  have member: "(''video'', Some [(2, example_period2, Some example_adaptation)])
      \<in> set [(''video'', Some [(2, example_period2, Some example_adaptation)])]"
    by simp
  have periods: "[example_period1, example_period2]
      = example_period1 # map (\<lambda>s. fst (snd s)) [(2, example_period2, Some example_adaptation)]"
    by simp
  from period_buffers_made_by_filled_or_finished [OF example_stream member periods]
    example_stream
  show ?thesis by simp
qed

end
